theory Spec2Isabelle
  imports Complex_Main
begin

section \<open>Frequent Directions sketch: the data model\<close>

text \<open>
  The development embeds \<^verbatim>\<open>src/frequent_direction/fd_sketch.py\<close>. A matrix is the list
  of its rows, and the three exceptions the code can raise are values. The source raises
  \<^verbatim>\<open>ValueError\<close> for both of its own checks (the specification calls them
  ConfigurationError and DimensionError); \<^verbatim>\<open>IndexError\<close> and \<^verbatim>\<open>TypeError\<close> come from
  indexing an empty list, an out-of-range index, or subscripting \<^verbatim>\<open>None\<close>.

  Numbers are reals, standing for finite float64 values; sums, products and square roots
  are taken exactly. Two places where float64 decides what the code does are written out:
  the rounding inside \<^verbatim>\<open>round(s, 7)\<close>, and the overflow of a squared singular value.
  On overflow numpy only warns and goes on with infinities and nans, which no real
  stands for: there a call of the model ends with \<open>NotFinite\<close>, which is not an exception
  of the code but the edge of what the model describes.
\<close>

datatype error = ValueError | IndexError | TypeError | NotFinite

type_synonym matrix = "real list list"

text \<open>
  \<^verbatim>\<open>numpy.linalg.svd(b, full_matrices=False)\<close> is a library routine: it is a parameter of
  the model, returning \<^verbatim>\<open>vec_sigma\<close> and \<^verbatim>\<open>mat_v\<close> (the code never reads \<^verbatim>\<open>mat_u\<close>).
\<close>

type_synonym svd_fun = "matrix \<Rightarrow> real list \<times> matrix"

record FrequentDirection =
  ell :: int
  k :: int
  M :: "int option"
  N :: int
  mat_b :: "matrix option"
  zero_rows :: "nat list option"

section \<open>Array operations used by the code\<close>

definition ncols :: "matrix \<Rightarrow> nat" where
  "ncols a = (case a of [] \<Rightarrow> 0 | r # _ \<Rightarrow> length r)"

text \<open>Python indexing \<^verbatim>\<open>xs[i]\<close>: a negative index counts from the end.\<close>

definition py_index :: "'a list \<Rightarrow> int \<Rightarrow> 'a option" where
  "py_index xs i =
     (if 0 \<le> i \<and> i < int (length xs) then Some (xs ! nat i)
      else if i < 0 \<and> - int (length xs) \<le> i then Some (xs ! nat (int (length xs) + i))
      else None)"

text \<open>Python slicing \<^verbatim>\<open>xs[:i]\<close>: never raises, a negative bound counts from the end.\<close>

definition py_slice_to :: "'a list \<Rightarrow> int \<Rightarrow> 'a list" where
  "py_slice_to xs i = take (nat (if i < 0 then int (length xs) + i else i)) xs"

text \<open>
  \<^verbatim>\<open>b[z, :] = row\<close> on an array: the index must be in range, and the row is broadcast to
  the width of the array, which numpy allows when the lengths agree or the row has
  length one.
\<close>

definition set_row :: "matrix \<Rightarrow> nat \<Rightarrow> real list \<Rightarrow> error + matrix" where
  "set_row b z row =
     (if length b \<le> z then Inl IndexError
      else if length row = length (b ! z) then Inr (b[z := row])
      else if length row = 1 then Inr (b[z := replicate (length (b ! z)) (hd row)])
      else Inl ValueError)"

definition zeros :: "nat \<Rightarrow> nat \<Rightarrow> matrix" where
  "zeros r c = replicate r (replicate c 0)"

definition diagflat :: "real list \<Rightarrow> matrix" where
  "diagflat xs =
     map (\<lambda>i. map (\<lambda>j. if i = j then xs ! i else 0) [0..<length xs]) [0..<length xs]"

definition col :: "matrix \<Rightarrow> nat \<Rightarrow> real list" where
  "col a j = map (\<lambda>r. r ! j) a"

definition transpose_mat :: "matrix \<Rightarrow> matrix" where
  "transpose_mat a = map (col a) [0..<ncols a]"

definition inner :: "real list \<Rightarrow> real list \<Rightarrow> real" where
  "inner xs ys = sum_list (map2 (*) xs ys)"

definition dot :: "matrix \<Rightarrow> matrix \<Rightarrow> matrix" where
  "dot a b = map (\<lambda>r. map (\<lambda>j. inner r (col b j)) [0..<ncols b]) a"

text \<open>
  \<^verbatim>\<open>a - b\<close> on two square arrays: the sizes must agree, or one of them is \<open>1 \<times> 1\<close> and
  its entry is broadcast.
\<close>

definition mat_sub :: "matrix \<Rightarrow> matrix \<Rightarrow> error + matrix" where
  "mat_sub a b =
     (if length a = length b then Inr (map2 (map2 (-)) a b)
      else if length a = 1 then Inr (map (map (\<lambda>y. hd (hd a) - y)) b)
      else if length b = 1 then Inr (map (map (\<lambda>x. x - hd (hd b))) a)
      else Inl ValueError)"

text \<open>
  The float64 nearest to a real, ties to the even significand of 53 bits. The exponent is
  not bounded here: the largest finite value is \<open>float_limit\<close>'s business.
\<close>

definition round_half_even :: "real \<Rightarrow> int" where
  "round_half_even y =
     (let f = \<lfloor>y\<rfloor>; d = y - of_int f
      in if d < 1 / 2 then f else if 1 / 2 < d then f + 1
         else if even f then f else f + 1)"

definition fl64 :: "real \<Rightarrow> real" where
  "fl64 x =
     (if x = 0 then 0
      else let u = 2 powr (of_int \<lfloor>log 2 \<bar>x\<bar>\<rfloor> - 52)
           in of_int (round_half_even (x / u)) * u)"

text \<open>
  \<^verbatim>\<open>round(x, nd)\<close> on a \<^verbatim>\<open>numpy.float64\<close>: numpy multiplies by \<open>10\<^sup>n\<^sup>d\<close>, rounds to the
  nearest integer (\<^verbatim>\<open>rint\<close>, ties to even) and divides, each a float64 operation.
\<close>

definition py_round :: "real \<Rightarrow> nat \<Rightarrow> real" where
  "py_round x nd = fl64 (of_int (round_half_even (fl64 (x * 10 ^ nd))) / 10 ^ nd)"

text \<open>The least magnitude that float64 rounds to an infinity.\<close>

definition float_limit :: real where
  "float_limit = 2 ^ 1024 - 2 ^ 970"

section \<open>The engine\<close>

text \<open>
  Lines 22 to 32. \<open>fresh\<close> is the state the constructor assigns; no statement of the
  constructor raises on integer arguments, so \<open>init\<close> has no error branch.
\<close>

definition fresh :: "int \<Rightarrow> int option \<Rightarrow> FrequentDirection" where
  "fresh l ko =
     \<lparr>ell = l,
      k = (case ko of None \<Rightarrow> 2 * l + 1 | Some x \<Rightarrow> x),
      M = None, N = 0, mat_b = None, zero_rows = None\<rparr>"

definition init :: "int \<Rightarrow> int option \<Rightarrow> error + FrequentDirection" where
  "init l ko = Inr (fresh l ko)"

definition is_initialized :: "FrequentDirection \<Rightarrow> bool" where
  "is_initialized e = (M e \<noteq> None)"

text \<open>
  Lines 37 to 48. The field \<open>M\<close> is assigned before the check of line 40, and
  \<^verbatim>\<open>np.zeros\<close> refuses a negative number of rows.
\<close>

definition initialize :: "FrequentDirection \<Rightarrow> real list \<Rightarrow> (error + unit) \<times> FrequentDirection" where
  "initialize e row =
     (let e1 = e\<lparr>M := Some (int (length row))\<rparr> in
      if int (length row) \<le> ell e1 then (Inl ValueError, e1)
      else
        let e2 = e1\<lparr>N := 0\<rparr> in
        if ell e2 + k e2 < 0 then (Inl ValueError, e2)
        else
          (Inr (),
           e2\<lparr>mat_b := Some (zeros (nat (ell e2 + k e2)) (length row)),
              zero_rows := Some [0..<nat (ell e2 + k e2)]\<rparr>))"

text \<open>Lines 50 to 58.\<close>

definition get_result :: "FrequentDirection \<Rightarrow> bool \<Rightarrow> (error + matrix) \<times> FrequentDirection" where
  "get_result e initialize_flag =
     (if N e \<le> ell e + k e then (Inl ValueError, e)
      else
        case mat_b e of
          None \<Rightarrow> (Inl TypeError, e)
        | Some b \<Rightarrow>
            (Inr (py_slice_to b (ell e)),
             if initialize_flag then fresh (ell e) (Some (k e)) else e))"

text \<open>
  Lines 76 to 89, the shrink step on the full buffer \<open>b\<close>: the new buffer and the new
  list of free rows. \<^verbatim>\<open>np.dot\<close> refuses operands whose inner dimensions differ. When a
  square of line 80 or 83 overflows, the buffer the code goes on with holds infinities or
  nans (\<open>NotFinite\<close>); the rows of \<^verbatim>\<open>mat_v\<close> are unit vectors, so nothing else can overflow.
\<close>

definition shrink :: "svd_fun \<Rightarrow> int \<Rightarrow> matrix \<Rightarrow> error + (matrix \<times> nat list)" where
  "shrink svd l b =
     (case svd b of (vec_sigma, mat_v) \<Rightarrow>
        (case py_index vec_sigma l of
           None \<Rightarrow> Inl IndexError
         | Some s \<Rightarrow>
             let squared_sv_center = s ^ 2;
                 sigma_tilda =
                   map (\<lambda>d. if d < 0 then 0 else sqrt d)
                     (map (\<lambda>x. x ^ 2 - squared_sv_center) vec_sigma)
             in if length sigma_tilda \<noteq> length mat_v then Inl ValueError
                else if list_ex (\<lambda>x. float_limit \<le> x ^ 2) vec_sigma then Inl NotFinite
                else
                  let b' = dot (diagflat sigma_tilda) mat_v
                  in Inr (b', filter (\<lambda>i. py_round (sum_list (b' ! i)) 7 = 0) [0..<length b'])))"

text \<open>
  Lines 60 to 90. An exception leaves the fields as they are at the raising statement:
  a failure of line 80 happens after the row was written and the index consumed.
\<close>

definition add_sample :: "svd_fun \<Rightarrow> FrequentDirection \<Rightarrow> real list \<Rightarrow> (error + unit) \<times> FrequentDirection" where
  "add_sample svd e row =
     (case (if is_initialized e then (Inr (), e) else initialize e row) of
        (Inl err, e1) \<Rightarrow> (Inl err, e1)
      | (Inr _, e1) \<Rightarrow>
          (case zero_rows e1 of
             None \<Rightarrow> (Inl TypeError, e1)
           | Some [] \<Rightarrow> (Inl IndexError, e1)
           | Some (z # zs) \<Rightarrow>
               (case mat_b e1 of
                  None \<Rightarrow> (Inl TypeError, e1)
                | Some b \<Rightarrow>
                    (case set_row b z row of
                       Inl err \<Rightarrow> (Inl err, e1)
                     | Inr b1 \<Rightarrow>
                         let e2 = e1\<lparr>mat_b := Some b1, zero_rows := Some (remove1 z (z # zs))\<rparr>
                         in if remove1 z (z # zs) = [] then
                              (case shrink svd (ell e2) b1 of
                                 Inl err \<Rightarrow> (Inl err, e2)
                               | Inr (b2, zr) \<Rightarrow>
                                   (Inr (), e2\<lparr>mat_b := Some b2, zero_rows := Some zr, N := N e2 + 1\<rparr>))
                            else (Inr (), e2\<lparr>N := N e2 + 1\<rparr>)))))"

text \<open>A caller feeding rows one after the other; the first exception ends the loop.\<close>

fun add_samples :: "svd_fun \<Rightarrow> FrequentDirection \<Rightarrow> real list list \<Rightarrow> (error + unit) \<times> FrequentDirection" where
  "add_samples svd e [] = (Inr (), e)"
| "add_samples svd e (r # rs) =
     (case add_sample svd e r of
        (Inl err, e') \<Rightarrow> (Inl err, e')
      | (Inr _, e') \<Rightarrow> add_samples svd e' rs)"

text \<open>
  A caller that catches every exception and goes on with the next row. The list holds the
  outcome of each call; it ends where a call leaves the finite numbers.
\<close>

fun add_each :: "svd_fun \<Rightarrow> FrequentDirection \<Rightarrow> real list list \<Rightarrow> (error + unit) list \<times> FrequentDirection" where
  "add_each svd e [] = ([], e)"
| "add_each svd e (r # rs) =
     (case add_sample svd e r of
        (res, e') \<Rightarrow>
          if res = Inl NotFinite then ([res], e')
          else (case add_each svd e' rs of (ress, e'') \<Rightarrow> (res # ress, e'')))"

text \<open>
  Lines 93 to 111. \<^verbatim>\<open>ln.norm(d, ord=2)\<close> is the largest singular value of \<open>d\<close>, which
  numpy takes from the same SVD routine; the maximum of no value raises.
\<close>

definition calculateError :: "svd_fun \<Rightarrow> matrix \<Rightarrow> matrix \<Rightarrow> error + real" where
  "calculateError svd mat_a mat_b' =
     (let dot_mat_a = dot (transpose_mat mat_a) mat_a;
          dot_mat_b = dot (transpose_mat mat_b') mat_b'
      in case mat_sub dot_mat_a dot_mat_b of
           Inl err \<Rightarrow> Inl err
         | Inr d \<Rightarrow>
             (case fst (svd d) of
                [] \<Rightarrow> Inl ValueError
              | s # ss \<Rightarrow> Inr (fold max ss s)))"

definition squaredFrobeniusNorm :: "matrix \<Rightarrow> real" where
  "squaredFrobeniusNorm mat_a = (sqrt (sum_list (map (\<lambda>x. \<bar>x\<bar> ^ 2) (concat mat_a)))) ^ 2"

section \<open>Notions used to state the properties\<close>

text \<open>
  The shape numpy documents for the reduced decomposition of an \<open>r \<times> c\<close> array:
  \<open>min r c\<close> singular values and a \<open>mat_v\<close> of \<open>min r c\<close> rows of length \<open>c\<close>.
\<close>

definition svd_shape :: "svd_fun \<Rightarrow> bool" where
  "svd_shape svd =
     (\<forall>a. case svd a of (s, vt) \<Rightarrow>
        length s = min (length a) (ncols a) \<and> length vt = length s \<and>
        (\<forall>r \<in> set vt. length r = ncols a))"

definition identity :: "nat \<Rightarrow> matrix" where
  "identity n = diagflat (replicate n 1)"

text \<open>
  What a singular value decomposition is: \<open>a = u \<cdot> diag s \<cdot> vt\<close> with orthonormal
  columns of \<open>u\<close>, orthonormal rows of \<open>vt\<close> and non-negative, descending \<open>s\<close>.
\<close>

definition is_svd :: "matrix \<Rightarrow> matrix \<Rightarrow> real list \<Rightarrow> matrix \<Rightarrow> bool" where
  "is_svd a u s vt =
     (dot (dot u (diagflat s)) vt = a \<and>
      dot (transpose_mat u) u = identity (length s) \<and>
      dot vt (transpose_mat vt) = identity (length s) \<and>
      sorted (rev s) \<and> list_all (\<lambda>x. 0 \<le> x) s \<and>
      length s = min (length a) (ncols a))"

text \<open>
  A finite table of decompositions, for running the engine on concrete rows. Outside
  the table the function only has the right shape.
\<close>

definition svd_default :: svd_fun where
  "svd_default a =
     (replicate (min (length a) (ncols a)) 0,
      take (min (length a) (ncols a)) (identity (ncols a)))"

definition svd_table :: svd_fun where
  "svd_table a =
     (if a = [[3, 0, 0], [0, 5, 0], [0, 0, 4]] then
        ([5, 4, 3], [[0, 1, 0], [0, 0, 1], [1, 0, 0]])
      else if a = [[3, 0], [4, 0], [12, 0], [0, 12]] then
        ([13, 12], [[1, 0], [0, 1]])
      else if a = [[13, 0], [0, 12]] then
        ([13, 12], [[1, 0], [0, 1]])
      else if a = [[5, 0], [0, 3]] then
        ([5, 3], [[1, 0], [0, 1]])
      else if a = [[3, 4]] then
        ([5], [[3 / 5, 4 / 5]])
      else if a = [[17, 0, 0, 0], [0, 10, 0, 0], [0, 0, 8, 0], [0, 0, 0, 1]] then
        ([17, 10, 8, 1], [[1, 0, 0, 0], [0, 1, 0, 0], [0, 0, 1, 0], [0, 0, 0, 1]])
      else if a = [[464, 0, 0, 0], [0, 64, 0, 0], [0, 0, 64, 0], [0, 0, 0, 1]] then
        ([464, 64, 64, 1], [[1, 0, 0, 0], [0, 1, 0, 0], [0, 0, 1, 0], [0, 0, 0, 1]])
      else if a = [[1, - 1, 1, - 1], [2, - 2, 2, - 2], [2, - 2, 2, - 2]] then
        ([6, 0, 0],
         [[1 / 2, - 1 / 2, 1 / 2, - 1 / 2], [1 / 2, 1 / 2, 1 / 2, 1 / 2],
          [1 / 2, 1 / 2, - 1 / 2, - 1 / 2]])
      else if a = [[9, - 9, 9, - 9], [- 9, 9, - 9, 9], [9, - 9, 9, - 9], [- 9, 9, - 9, 9]] then
        ([36, 0, 0, 0],
         [[1 / 2, - 1 / 2, 1 / 2, - 1 / 2], [1 / 2, 1 / 2, 1 / 2, 1 / 2],
          [1 / 2, 1 / 2, - 1 / 2, - 1 / 2], [1 / 2, - 1 / 2, - 1 / 2, 1 / 2]])
      else if a = [[3], [4]] then
        ([5], [[1]])
      else if a = [[1 / 10 ^ 7, 0, 0], [0, 13 / (2 * 10 ^ 8), 0], [0, 0, 6 / 10 ^ 8]] then
        ([1 / 10 ^ 7, 13 / (2 * 10 ^ 8), 6 / 10 ^ 8], [[1, 0, 0], [0, 1, 0], [0, 0, 1]])
      else if a = [[10 ^ 200, 0], [0, 10 ^ 200]] then
        ([10 ^ 200, 10 ^ 200], [[1, 0], [0, 1]])
      else svd_default a)"

text \<open>
  Whether the call \<open>add_sample e row\<close> finds the test of line 74 true, and the number
  of calls of a successful run that did: the number of shrinks.
\<close>

definition exhausts_free_rows :: "FrequentDirection \<Rightarrow> real list \<Rightarrow> bool" where
  "exhausts_free_rows e row =
     (case (if is_initialized e then (Inr (), e) else initialize e row) of
        (Inl err, e1) \<Rightarrow> False
      | (Inr _, e1) \<Rightarrow>
          (case zero_rows e1 of
             None \<Rightarrow> False
           | Some [] \<Rightarrow> False
           | Some (z # zs) \<Rightarrow> remove1 z (z # zs) = []))"

fun shrink_count :: "svd_fun \<Rightarrow> FrequentDirection \<Rightarrow> real list list \<Rightarrow> nat" where
  "shrink_count svd e [] = 0"
| "shrink_count svd e (r # rs) =
     (case add_sample svd e r of
        (Inl err, e') \<Rightarrow> 0
      | (Inr _, e') \<Rightarrow> (if exhausts_free_rows e r then 1 else 0) + shrink_count svd e' rs)"

text \<open>The shrunk singular value as the specification writes it.\<close>

definition shrunk :: "real \<Rightarrow> real \<Rightarrow> real" where
  "shrunk threshold s = sqrt (max 0 (s ^ 2 - threshold))"


text \<open>The shape of an array: \<open>r\<close> rows, each of length \<open>c\<close>.\<close>

definition has_shape :: "matrix \<Rightarrow> nat \<Rightarrow> nat \<Rightarrow> bool" where
  "has_shape b r c = (length b = r \<and> list_all (\<lambda>x. length x = c) b)"

section \<open>Proofs\<close>


subsection \<open>Evaluation helpers\<close>

lemma upt_3: "[0..<3] = [0, 1, 2]" by (simp add: upt_rec)
lemma upt_2: "[0..<2] = [0, 1]" by (simp add: upt_rec)
lemma upt_4: "[0..<4] = [0, 1, 2, 3]" by (simp add: upt_rec)
lemma upt_1: "[0..<1] = [0]" by (simp add: upt_rec)

lemma sqrt_9: "sqrt 9 = 3" using real_sqrt_abs[of 3] by simp
lemma sqrt_16: "sqrt 16 = 4" using real_sqrt_abs[of 4] by simp
lemma sqrt_25: "sqrt 25 = 5" using real_sqrt_abs[of 5] by simp
lemma sqrt_36: "sqrt 36 = 6" using real_sqrt_abs[of 6] by simp

subsection \<open>Rounding\<close>

lemma round_half_even_le_even:
  assumes "even n"
  shows "round_half_even y \<le> n \<longleftrightarrow> y \<le> of_int n + 1 / 2"
proof -
  define f where "f = \<lfloor>y\<rfloor>"
  define d where "d = y - of_int f"
  have d: "0 \<le> d" "d < 1" unfolding d_def f_def by linarith+
  have y: "y = of_int f + d" by (simp add: d_def)
  have r: "round_half_even y =
      (if d < 1 / 2 then f else if 1 / 2 < d then f + 1 else if even f then f else f + 1)"
    by (simp add: round_half_even_def Let_def f_def d_def)
  consider "f + 1 \<le> n" | "f = n" | "n + 1 \<le> f" by linarith
  then show ?thesis
  proof cases
    case 1
    then have "real_of_int f + 1 \<le> real_of_int n"
      using of_int_le_iff[of "f + 1" n, where ?'a = real] by simp
    then have "y \<le> of_int n + 1 / 2" using y d by linarith
    moreover have "round_half_even y \<le> n" using 1 r by (auto split: if_splits)
    ultimately show ?thesis by simp
  next
    case 2
    then have yd: "y = of_int n + d" using y by simp
    have "round_half_even y \<le> n \<longleftrightarrow> d \<le> 1 / 2" using 2 r assms by auto
    moreover have "y \<le> of_int n + 1 / 2 \<longleftrightarrow> d \<le> 1 / 2" using yd by linarith
    ultimately show ?thesis by simp
  next
    case 3
    then have "real_of_int n + 1 \<le> real_of_int f"
      using of_int_le_iff[of "n + 1" f, where ?'a = real] by simp
    then have "\<not> y \<le> of_int n + 1 / 2" using y d by linarith
    moreover have "\<not> round_half_even y \<le> n" using 3 r by (auto split: if_splits)
    ultimately show ?thesis by simp
  qed
qed

lemma round_half_even_ge_even:
  assumes "even n"
  shows "n \<le> round_half_even y \<longleftrightarrow> of_int n - 1 / 2 \<le> y"
proof -
  define f where "f = \<lfloor>y\<rfloor>"
  define d where "d = y - of_int f"
  have d: "0 \<le> d" "d < 1" unfolding d_def f_def by linarith+
  have y: "y = of_int f + d" by (simp add: d_def)
  have r: "round_half_even y =
      (if d < 1 / 2 then f else if 1 / 2 < d then f + 1 else if even f then f else f + 1)"
    by (simp add: round_half_even_def Let_def f_def d_def)
  consider "n \<le> f" | "f = n - 1" | "f + 2 \<le> n" by linarith
  then show ?thesis
  proof cases
    case 1
    then have "real_of_int n \<le> real_of_int f" by simp
    then have "of_int n - 1 / 2 \<le> y" using y d by linarith
    moreover have "n \<le> round_half_even y" using 1 r by (auto split: if_splits)
    ultimately show ?thesis by simp
  next
    case 2
    then have yd: "y = of_int n - 1 + d" using y by simp
    have odd: "odd f" using 2 assms by simp
    have "n \<le> round_half_even y \<longleftrightarrow> 1 / 2 \<le> d" using 2 r odd by auto
    moreover have "of_int n - 1 / 2 \<le> y \<longleftrightarrow> 1 / 2 \<le> d" using yd by linarith
    ultimately show ?thesis by simp
  next
    case 3
    then have "real_of_int f + 2 \<le> real_of_int n"
      using of_int_le_iff[of "f + 2" n, where ?'a = real] by simp
    then have "\<not> of_int n - 1 / 2 \<le> y" using y d by linarith
    moreover have "\<not> n \<le> round_half_even y" using 3 r by (auto split: if_splits)
    ultimately show ?thesis by simp
  qed
qed

lemma abs_round_half_even_le:
  assumes "even n"
  shows "\<bar>round_half_even y\<bar> \<le> n \<longleftrightarrow> \<bar>y\<bar> \<le> of_int n + 1 / 2"
proof -
  have "\<bar>round_half_even y\<bar> \<le> n \<longleftrightarrow> round_half_even y \<le> n \<and> - n \<le> round_half_even y"
    by linarith
  also have "\<dots> \<longleftrightarrow> y \<le> of_int n + 1 / 2 \<and> of_int (- n) - 1 / 2 \<le> y"
    using round_half_even_le_even[OF assms, of y] round_half_even_ge_even[of "- n" y] assms
    by simp
  also have "\<dots> \<longleftrightarrow> \<bar>y\<bar> \<le> of_int n + 1 / 2" by (simp add: abs_le_iff) linarith
  finally show ?thesis .
qed

lemma round_half_even_eq_0_iff: "round_half_even y = 0 \<longleftrightarrow> \<bar>y\<bar> \<le> 1 / 2"
  using abs_round_half_even_le[of 0 y] by simp

lemma fl64_abs:
  assumes "y \<noteq> 0"
  obtains p q :: real where "0 < p" "p \<le> \<bar>y\<bar>" "\<bar>y\<bar> < 2 * p"
    "p = 2 powr of_int \<lfloor>log 2 \<bar>y\<bar>\<rfloor>"
    "\<bar>q\<bar> = \<bar>y\<bar> * 2 ^ 52 / p"
    "\<bar>fl64 y\<bar> = of_int \<bar>round_half_even q\<bar> * p / 2 ^ 52"
proof -
  define e where "e = \<lfloor>log 2 \<bar>y\<bar>\<rfloor>"
  define p :: real where "p = 2 powr of_int e"
  define u :: real where "u = 2 powr (of_int e - 52)"
  define q where "q = y / u"
  have a: "0 < \<bar>y\<bar>" using assms by simp
  have p0: "0 < p" by (simp add: p_def)
  have lo: "of_int e \<le> log 2 \<bar>y\<bar>" and hi: "log 2 \<bar>y\<bar> < of_int e + 1"
    unfolding e_def by linarith+
  have "2 powr of_int e \<le> 2 powr log 2 \<bar>y\<bar>" using lo by simp
  then have ple: "p \<le> \<bar>y\<bar>" using a by (simp add: p_def)
  have "2 powr log 2 \<bar>y\<bar> < 2 powr (of_int e + 1)" using hi by simp
  then have plt: "\<bar>y\<bar> < 2 * p" using a by (simp add: p_def powr_add)
  have u: "u = p / 2 ^ 52"
    by (simp add: u_def p_def powr_diff)
  have u0: "0 < u" by (simp add: u_def)
  have q: "\<bar>q\<bar> = \<bar>y\<bar> * 2 ^ 52 / p" using p0 by (simp add: q_def u abs_mult)
  have "fl64 y = of_int (round_half_even q) * u"
    using assms by (simp add: fl64_def Let_def q_def u_def e_def)
  then have "\<bar>fl64 y\<bar> = of_int \<bar>round_half_even q\<bar> * u"
    using u0 by (simp add: abs_mult)
  then have f: "\<bar>fl64 y\<bar> = of_int \<bar>round_half_even q\<bar> * p / 2 ^ 52" by (simp add: u)
  show ?thesis using that[OF p0 ple plt _ q f] by (simp add: p_def e_def)
qed

lemma powr_int_cases:
  fixes e :: int
  shows "e \<le> - 2 \<Longrightarrow> 2 powr real_of_int e \<le> 1 / 4"
    and "e = - 1 \<Longrightarrow> 2 powr real_of_int e = 1 / 2"
    and "0 \<le> e \<Longrightarrow> 1 \<le> 2 powr real_of_int e"
proof -
  have m2: "(2::real) powr (- 2) = 1 / 4"
    by (simp add: powr_minus_divide)
  show "2 powr real_of_int e \<le> 1 / 4" if "e \<le> - 2"
  proof -
    have "real_of_int e \<le> - 2" using that by simp
    then have "(2::real) powr real_of_int e \<le> 2 powr (- 2)" by simp
    then show ?thesis using m2 by simp
  qed
  show "2 powr real_of_int e = 1 / 2" if "e = - 1"
    using that by (simp add: powr_minus_divide)
  show "1 \<le> 2 powr real_of_int e" if "0 \<le> e"
  proof -
    have "(0::real) \<le> real_of_int e" using that by simp
    then have "(2::real) powr 0 \<le> 2 powr real_of_int e" by (simp only: powr_le_cancel_iff)
    then show ?thesis by simp
  qed
qed

lemma fl64_eq_0_iff: "fl64 y = 0 \<longleftrightarrow> y = 0"
proof
  assume "y = 0" then show "fl64 y = 0" by (simp add: fl64_def)
next
  assume z: "fl64 y = 0"
  show "y = 0"
  proof (rule ccontr)
    assume "y \<noteq> 0"
    then obtain p q :: real where p: "0 < p" "p \<le> \<bar>y\<bar>"
      and q: "\<bar>q\<bar> = \<bar>y\<bar> * 2 ^ 52 / p"
      and f: "\<bar>fl64 y\<bar> = of_int \<bar>round_half_even q\<bar> * p / 2 ^ 52"
      by (rule fl64_abs)
    have "2 ^ 52 * p \<le> \<bar>y\<bar> * 2 ^ 52" using p by simp
    then have "2 ^ 52 \<le> \<bar>q\<bar>" using p(1) by (simp add: q pos_le_divide_eq)
    then have "\<not> \<bar>q\<bar> \<le> 1 / 2" by simp
    then have "round_half_even q \<noteq> 0" by (simp add: round_half_even_eq_0_iff)
    then have "of_int \<bar>round_half_even q\<bar> * p / 2 ^ 52 \<noteq> 0" using p(1) by simp
    with f z show False by simp
  qed
qed

lemma fl64_abs_le_half: "\<bar>fl64 y\<bar> \<le> 1 / 2 \<longleftrightarrow> \<bar>y\<bar> \<le> 1 / 2 + 1 / 2 ^ 54"
proof (cases "y = 0")
  case True
  then show ?thesis by (simp add: fl64_def)
next
  case False
  then obtain p q :: real where p: "0 < p" "p \<le> \<bar>y\<bar>" "\<bar>y\<bar> < 2 * p"
    and pe: "p = 2 powr of_int \<lfloor>log 2 \<bar>y\<bar>\<rfloor>"
    and q: "\<bar>q\<bar> = \<bar>y\<bar> * 2 ^ 52 / p"
    and f: "\<bar>fl64 y\<bar> = of_int \<bar>round_half_even q\<bar> * p / 2 ^ 52"
    by (rule fl64_abs)
  define r where "r = \<bar>round_half_even q\<bar>"
  have fr: "\<bar>fl64 y\<bar> = of_int r * p / 2 ^ 52" using f by (simp add: r_def)
  have "2 ^ 52 * p \<le> \<bar>y\<bar> * 2 ^ 52" using p by simp
  then have qlo: "2 ^ 52 \<le> \<bar>q\<bar>" using p(1) by (simp add: q pos_le_divide_eq)
  have "\<bar>y\<bar> * 2 ^ 52 < 2 ^ 53 * p" using p by simp
  then have qhi: "\<bar>q\<bar> < 2 ^ 53" using p(1) by (simp add: q pos_divide_less_eq)
  have r53: "r \<le> 2 ^ 53"
    using abs_round_half_even_le[of "2 ^ 53" q] qhi by (simp add: r_def)
  have "\<not> r \<le> 2 ^ 52 - 2"
    using abs_round_half_even_le[of "2 ^ 52 - 2" q] qlo by (simp add: r_def)
  then have r52: "2 ^ 52 - 1 \<le> r" by linarith
  have rmid: "r \<le> 2 ^ 52 \<longleftrightarrow> \<bar>q\<bar> \<le> 2 ^ 52 + 1 / 2"
    using abs_round_half_even_le[of "2 ^ 52" q] by (simp add: r_def)
  have r53': "real_of_int r \<le> 2 ^ 53"
    using r53 of_int_le_iff[of r "2 ^ 53", where ?'a = real] by simp
  have r52': "2 ^ 52 - 1 \<le> real_of_int r"
    using r52 of_int_le_iff[of "2 ^ 52 - 1" r, where ?'a = real] by simp
  have rmid': "real_of_int r \<le> 2 ^ 52 \<longleftrightarrow> r \<le> 2 ^ 52"
    using of_int_le_iff[of r "2 ^ 52", where ?'a = real] by simp
  consider "\<lfloor>log 2 \<bar>y\<bar>\<rfloor> \<le> - 2" | "\<lfloor>log 2 \<bar>y\<bar>\<rfloor> = - 1" | "0 \<le> \<lfloor>log 2 \<bar>y\<bar>\<rfloor>"
    by linarith
  then show ?thesis
  proof cases
    case 1
    then have p4: "p \<le> 1 / 4" using powr_int_cases(1) pe by simp
    have "of_int r * p \<le> 2 ^ 53 * p" using r53' p(1) by (simp add: mult_right_mono)
    then have "of_int r * p / 2 ^ 52 \<le> 2 * p" by (simp add: field_simps)
    then have "\<bar>fl64 y\<bar> \<le> 1 / 2" using fr p4 by linarith
    moreover have "\<bar>y\<bar> \<le> 1 / 2 + 1 / 2 ^ 54" using p(3) p4 by simp
    ultimately show ?thesis by simp
  next
    case 2
    then have ph: "p = 1 / 2" using powr_int_cases(2) pe by simp
    have e1: "\<bar>fl64 y\<bar> = real_of_int r / 2 ^ 53" using fr ph by simp
    have "real_of_int r / 2 ^ 53 \<le> 1 / 2 \<longleftrightarrow> real_of_int r \<le> 2 ^ 52"
      by (simp add: pos_divide_le_eq)
    then have "\<bar>fl64 y\<bar> \<le> 1 / 2 \<longleftrightarrow> real_of_int r \<le> 2 ^ 52"
      by (simp only: e1)
    also have "\<dots> \<longleftrightarrow> \<bar>q\<bar> \<le> 2 ^ 52 + 1 / 2" using rmid rmid' by simp
    also have "\<dots> \<longleftrightarrow> \<bar>y\<bar> \<le> 1 / 2 + 1 / 2 ^ 54"
      using q ph by (simp add: field_simps)
    finally show ?thesis .
  next
    case 3
    then have p1: "1 \<le> p" using powr_int_cases(3) pe by simp
    have "(2 ^ 52 - 1) * 1 \<le> real_of_int r * p"
      using r52' p1 by (intro mult_mono) simp_all
    then have "(2 ^ 52 - 1) / 2 ^ 52 \<le> real_of_int r * p / 2 ^ 52"
      by (simp add: divide_right_mono)
    then have "\<not> \<bar>fl64 y\<bar> \<le> 1 / 2" using fr by simp
    moreover have "\<not> \<bar>y\<bar> \<le> 1 / 2 + 1 / 2 ^ 54" using p(2) p1 by simp
    ultimately show ?thesis by simp
  qed
qed


text \<open>
  \<^verbatim>\<open>round(x, 7) == 0\<close> is a test of magnitude: the product \<open>x * 10\<^sup>7\<close> must round, as a
  float64, to at most one half.
\<close>

lemma py_round_7_eq_0_iff: "py_round x 7 = 0 \<longleftrightarrow> \<bar>x\<bar> * 10 ^ 7 \<le> 1 / 2 + 1 / 2 ^ 54"
proof -
  have "py_round x 7 = 0 \<longleftrightarrow> round_half_even (fl64 (x * 10 ^ 7)) = 0"
    by (simp add: py_round_def fl64_eq_0_iff)
  also have "\<dots> \<longleftrightarrow> \<bar>fl64 (x * 10 ^ 7)\<bar> \<le> 1 / 2" by (rule round_half_even_eq_0_iff)
  also have "\<dots> \<longleftrightarrow> \<bar>x * 10 ^ 7\<bar> \<le> 1 / 2 + 1 / 2 ^ 54" by (rule fl64_abs_le_half)
  also have "\<dots> \<longleftrightarrow> \<bar>x\<bar> * 10 ^ 7 \<le> 1 / 2 + 1 / 2 ^ 54" by (simp add: abs_mult)
  finally show ?thesis .
qed

subsection \<open>Structure of a successful call\<close>

lemma initialize_Ok:
  assumes "initialize e row = (Inr u, e1)"
  shows "ell e < int (length row)" "0 \<le> ell e + k e"
    "e1 = e\<lparr>M := Some (int (length row)), N := 0,
            mat_b := Some (zeros (nat (ell e + k e)) (length row)),
            zero_rows := Some [0..<nat (ell e + k e)]\<rparr>"
  using assms unfolding initialize_def by (auto simp: Let_def split: if_splits)

lemma add_sample_OkE:
  assumes "add_sample svd e row = (Inr u, e')"
  obtains e1 z zs b b1 where
    "if is_initialized e then e1 = e else initialize e row = (Inr (), e1)"
    "zero_rows e1 = Some (z # zs)" "mat_b e1 = Some b" "set_row b z row = Inr b1"
    "zs = [] \<Longrightarrow> \<exists>b2 zr. shrink svd (ell e1) b1 = Inr (b2, zr) \<and>
        e' = e1\<lparr>mat_b := Some b2, zero_rows := Some zr, N := N e1 + 1\<rparr>"
    "zs \<noteq> [] \<Longrightarrow> e' = e1\<lparr>mat_b := Some b1, zero_rows := Some zs, N := N e1 + 1\<rparr>"
  using assms unfolding add_sample_def
  by (auto simp: Let_def split: if_splits prod.splits sum.splits option.splits list.splits)

lemma add_sample_fields:
  assumes "add_sample svd e row = (Inr u, e')" "M e = None \<longrightarrow> N e = 0"
  shows "N e' = N e + 1 \<and> M e' \<noteq> None \<and> ell e' = ell e \<and> k e' = k e"
  using assms(1)
proof (rule add_sample_OkE)
  fix e1 z zs b b1
  assume a: "if is_initialized e then e1 = e else initialize e row = (Inr (), e1)"
   and s: "zs = [] \<Longrightarrow> \<exists>b2 zr. shrink svd (ell e1) b1 = Inr (b2, zr) \<and>
        e' = e1\<lparr>mat_b := Some b2, zero_rows := Some zr, N := N e1 + 1\<rparr>"
   and t: "zs \<noteq> [] \<Longrightarrow> e' = e1\<lparr>mat_b := Some b1, zero_rows := Some zs, N := N e1 + 1\<rparr>"
  have e1: "N e1 = N e \<and> M e1 \<noteq> None \<and> ell e1 = ell e \<and> k e1 = k e"
  proof (cases "is_initialized e")
    case True with a show ?thesis by (simp add: is_initialized_def)
  next
    case False
    with a have "initialize e row = (Inr (), e1)" by simp
    from initialize_Ok(3)[OF this] False assms(2) show ?thesis by (simp add: is_initialized_def)
  qed
  show ?thesis using s t e1 by (cases "zs = []") auto
qed

lemma add_samples_fields:
  "add_samples svd e rows = (Inr u, e') \<Longrightarrow> M e = None \<longrightarrow> N e = 0 \<Longrightarrow>
     N e' = N e + int (length rows) \<and> ell e' = ell e \<and> k e' = k e \<and>
     (M e' = None \<longrightarrow> N e' = 0)"
proof (induction rows arbitrary: e)
  case Nil
  then show ?case by simp
next
  case (Cons r rs)
  from Cons.prems(1) obtain e1 where
    s: "add_sample svd e r = (Inr (), e1)" and t: "add_samples svd e1 rs = (Inr u, e')"
    by (auto split: prod.splits sum.splits)
  from add_sample_fields[OF s Cons.prems(2)]
  have f: "N e1 = N e + 1" "M e1 \<noteq> None" "ell e1 = ell e" "k e1 = k e" by simp_all
  from f(2) have "M e1 = None \<longrightarrow> N e1 = 0" by blast
  note r = Cons.IH[OF t this]
  have "N e' = N e + int (length (r # rs))" using r f(1) by simp
  moreover have "ell e' = ell e" "k e' = k e" using r f(3,4) by simp_all
  moreover have "M e' = None \<longrightarrow> N e' = 0" using r by blast
  ultimately show ?case by blast
qed

lemma fresh_fields:
  "ell (fresh l ko) = l" "k (fresh l ko) = (case ko of None \<Rightarrow> 2 * l + 1 | Some x \<Rightarrow> x)"
  "M (fresh l ko) = None" "N (fresh l ko) = 0" "mat_b (fresh l ko) = None"
  "zero_rows (fresh l ko) = None"
  by (simp_all add: fresh_def)

lemma fresh_again: "fresh l (Some (k (fresh l ko))) = fresh l ko"
  by (simp add: fresh_def)

text \<open>
Claim C5 as stated fails: the constructor has no check of \<open>ell\<close>, and returns an engine
for \<open>ell = 0\<close> and for \<open>ell = -3\<close>.
\<close>

theorem init_nonpositive_counterexample:
  "init 0 None = Inr \<lparr>ell = 0, k = 1, M = None, N = 0, mat_b = None, zero_rows = None\<rparr> \<and>
   init (- 3) (Some 2) = Inr \<lparr>ell = - 3, k = 2, M = None, N = 0, mat_b = None, zero_rows = None\<rparr>"
  by (simp add: init_def fresh_def)

text \<open>
Claim C5, amended: construction succeeds for every integer \<open>ell\<close> and every \<open>k\<close>; the
engine keeps \<open>ell\<close>, takes \<open>k\<close> or the default \<open>2 * ell + 1\<close>, and is uninitialized with
\<open>N = 0\<close> and no buffer.
\<close>

theorem init_succeeds:
  "\<exists>e. init l ko = Inr e \<and> ell e = l \<and> k e = (case ko of None \<Rightarrow> 2 * l + 1 | Some x \<Rightarrow> x) \<and>
       \<not> is_initialized e \<and> N e = 0 \<and> mat_b e = None \<and> zero_rows e = None"
  by (simp add: init_def fresh_def is_initialized_def)

lemma add_sample_N_mono:
  assumes "M e = None \<longrightarrow> N e = 0" "add_sample svd e row = (res, e')"
  shows "N e \<le> N e'"
proof (cases "is_initialized e")
  case True
  with assms(2) show ?thesis
    by (auto simp: add_sample_def Let_def
        split: option.splits list.splits sum.splits prod.splits if_splits)
next
  case False
  then have n: "N e = 0" using assms(1) by (simp add: is_initialized_def)
  obtain r1 e1 where i: "initialize e row = (r1, e1)" by (cases "initialize e row")
  then have "N e1 = 0" using n by (auto simp: initialize_def Let_def split: if_splits)
  with assms(2) False i n show ?thesis
    by (auto simp: add_sample_def Let_def
        split: option.splits list.splits sum.splits prod.splits if_splits)
qed

text \<open>
Claim C8: after \<open>j\<close> successful calls of \<open>add_sample\<close> on a fresh engine the counter
\<open>N\<close> equals \<open>j\<close>; every further successful call increments it by exactly one,
whether or not the call shrinks the buffer, and no call, successful or not, decrements
it.
\<close>

theorem add_increments_N:
  assumes "add_samples svd (fresh l ko) rows = (Inr (), e)"
  shows "N e = int (length rows) \<and>
         (\<forall>row e'. add_sample svd e row = (Inr (), e') \<longrightarrow> N e' = N e + 1) \<and>
         (\<forall>row res e'. add_sample svd e row = (res, e') \<longrightarrow> N e \<le> N e')"
proof -
  have f: "M (fresh l ko) = None \<longrightarrow> N (fresh l ko) = 0" by (simp add: fresh_fields)
  note r = add_samples_fields[OF assms f]
  from r have n: "N e = int (length rows)" by (simp add: fresh_fields)
  from r have i: "M e = None \<longrightarrow> N e = 0" by blast
  have "N e' = N e + 1" if "add_sample svd e row = (Inr (), e')" for row e'
    using add_sample_fields[OF that i] by simp
  moreover have "N e \<le> N e'" if "add_sample svd e row = (res, e')" for row res e'
    using add_sample_N_mono[OF i that] .
  ultimately show ?thesis using n by blast
qed

text \<open>
Claim C9: on an engine reached from a fresh one, a successful \<open>get_result\<close> with the
reset flag leaves exactly the just-constructed state with the same \<open>ell\<close> and \<open>k\<close>
(\<open>M\<close>, \<open>N\<close>, buffer and free rows cleared, \<open>is_initialized\<close> false), so every later
sequence of rows behaves as on a newly constructed engine.
\<close>

theorem get_result_reset:
  assumes "add_samples svd (fresh l ko) rows = (Inr (), e)"
    and "get_result e True = (Inr r, e')"
  shows "e' = fresh l ko \<and> init (ell e) (Some (k e)) = Inr e' \<and> \<not> is_initialized e' \<and>
         M e' = None \<and> N e' = 0 \<and> mat_b e' = None \<and> zero_rows e' = None \<and>
         add_samples svd e' rows' = add_samples svd (fresh l ko) rows'"
proof -
  have f: "M (fresh l ko) = None \<longrightarrow> N (fresh l ko) = 0" by (simp add: fresh_fields)
  from add_samples_fields[OF assms(1) f]
  have lk: "ell e = l" "k e = k (fresh l ko)" by (simp_all add: fresh_fields)
  from assms(2) have "e' = fresh (ell e) (Some (k e))"
    by (auto simp: get_result_def split: if_splits option.splits)
  with lk have e': "e' = fresh l ko" by (simp add: fresh_again)
  then show ?thesis using lk by (simp add: init_def fresh_again fresh_fields is_initialized_def)
qed

text \<open>
Claim C4: \<open>get_result\<close> raises \<open>ValueError\<close> exactly when \<open>N \<le> ell + k\<close>; it raises at
\<open>N = ell + k\<close>, and at \<open>N = ell + k + 1\<close> it returns the first \<open>ell\<close> rows of the
current buffer.
\<close>

theorem get_result_boundary:
  "(fst (get_result e flag) = Inl ValueError \<longleftrightarrow> N e \<le> ell e + k e) \<and>
   (N e = ell e + k e \<longrightarrow> get_result e flag = (Inl ValueError, e)) \<and>
   (N e = ell e + k e + 1 \<and> mat_b e = Some b \<and> 0 \<le> ell e \<longrightarrow>
      fst (get_result e flag) = Inr (take (nat (ell e)) b))"
  by (auto simp: get_result_def py_slice_to_def split: option.splits)

lemma first_add_unfold:
  assumes "\<not> is_initialized e"
  shows "(int (length row) \<le> ell e \<longrightarrow>
            add_sample svd e row = (Inl ValueError, e\<lparr>M := Some (int (length row))\<rparr>)) \<and>
         (ell e < int (length row) \<and> 0 \<le> ell e + k e \<longrightarrow>
            initialize e row =
              (Inr (), e\<lparr>M := Some (int (length row)), N := 0,
                        mat_b := Some (zeros (nat (ell e + k e)) (length row)),
                        zero_rows := Some [0..<nat (ell e + k e)]\<rparr>) \<and>
            add_sample svd e row =
              add_sample svd
                (e\<lparr>M := Some (int (length row)), N := 0,
                   mat_b := Some (zeros (nat (ell e + k e)) (length row)),
                   zero_rows := Some [0..<nat (ell e + k e)]\<rparr>) row)"
  using assms
  by (auto simp: add_sample_def initialize_def is_initialized_def Let_def)

text \<open>
Claim C7: the first call on an uninitialized engine takes \<open>M = len(row)\<close>; it raises
\<open>ValueError\<close> when \<open>ell \<ge> M\<close>, and otherwise allocates the buffer of \<open>ell + k\<close> rows of
\<open>M\<close> zeros, sets the free rows to \<open>[0, ..., ell + k - 1]\<close> and \<open>N = 0\<close>, and only then
inserts the row: with at least two buffer rows the call returns with the row in buffer
row 0, the free rows \<open>[1, ..., ell + k - 1]\<close> and \<open>N = 1\<close>.
\<close>

theorem first_add_initializes:
  assumes "\<not> is_initialized e"
  shows "(int (length row) \<le> ell e \<longrightarrow>
            add_sample svd e row = (Inl ValueError, e\<lparr>M := Some (int (length row))\<rparr>)) \<and>
         (ell e < int (length row) \<and> 0 \<le> ell e + k e \<longrightarrow>
            initialize e row =
              (Inr (), e\<lparr>M := Some (int (length row)), N := 0,
                        mat_b := Some (replicate (nat (ell e + k e)) (replicate (length row) 0)),
                        zero_rows := Some [0..<nat (ell e + k e)]\<rparr>) \<and>
            add_sample svd e row =
              add_sample svd
                (e\<lparr>M := Some (int (length row)), N := 0,
                   mat_b := Some (replicate (nat (ell e + k e)) (replicate (length row) 0)),
                   zero_rows := Some [0..<nat (ell e + k e)]\<rparr>) row) \<and>
         (ell e < int (length row) \<and> 2 \<le> ell e + k e \<longrightarrow>
            add_sample svd e row =
              (Inr (), e\<lparr>M := Some (int (length row)), N := 1,
                        mat_b := Some ((replicate (nat (ell e + k e)) (replicate (length row) 0))
                                        [0 := row]),
                        zero_rows := Some [1..<nat (ell e + k e)]\<rparr>))"
proof -
  let ?n = "nat (ell e + k e)"
  have 1: "add_sample svd e row = (Inl ValueError, e\<lparr>M := Some (int (length row))\<rparr>)"
    if "int (length row) \<le> ell e"
    using assms that by (simp add: add_sample_def initialize_def is_initialized_def Let_def)
  have 2: "initialize e row =
      (Inr (), e\<lparr>M := Some (int (length row)), N := 0,
                mat_b := Some (replicate ?n (replicate (length row) 0)),
                zero_rows := Some [0..<?n]\<rparr>)"
    if "ell e < int (length row)" "0 \<le> ell e + k e"
    using that by (simp add: initialize_def Let_def zeros_def)
  have 3: "add_sample svd e row =
      add_sample svd (e\<lparr>M := Some (int (length row)), N := 0,
                mat_b := Some (replicate ?n (replicate (length row) 0)),
                zero_rows := Some [0..<?n]\<rparr>) row"
    if "ell e < int (length row)" "0 \<le> ell e + k e"
    using assms 2[OF that] by (simp add: add_sample_def is_initialized_def)
  have 4: "add_sample svd e row =
      (Inr (), e\<lparr>M := Some (int (length row)), N := 1,
                mat_b := Some ((replicate ?n (replicate (length row) 0))[0 := row]),
                zero_rows := Some [1..<?n]\<rparr>)"
    if a: "ell e < int (length row)" and b: "2 \<le> ell e + k e"
  proof -
    from b have n: "2 \<le> ?n" by simp
    then have u: "[0..<?n] = 0 # [1..<?n]" by (simp add: upt_conv_Cons)
    have ne: "[1..<?n] \<noteq> []" using n by simp
    have s: "set_row (replicate ?n (replicate (length row) 0)) 0 row =
        Inr ((replicate ?n (replicate (length row) 0))[0 := row])"
      using n by (simp add: set_row_def)
    from b have "0 \<le> ell e + k e" by simp
    from 3[OF a this] show ?thesis
      using u ne s by (simp add: add_sample_def is_initialized_def Let_def)
  qed
  from 1 2 3 4 show ?thesis by blast
qed

subsection \<open>A run with one shrink\<close>

lemma Suc_6: "Suc (Suc (Suc (Suc (Suc (Suc 0))))) = 6" by simp

lemma replicate_3: "replicate 3 x = [x, x, x]" by (simp add: numeral_3_eq_3)
lemma replicate_2: "replicate 2 x = [x, x]" by (simp add: numeral_2_eq_2)
lemma replicate_4: "replicate 4 x = [x, x, x, x]" by (simp add: numeral_Bit0 numeral_2_eq_2)

lemmas eval_add = add_sample_def is_initialized_def initialize_def fresh_def Let_def zeros_def
  set_row_def replicate_2 replicate_3 replicate_4 upt_1 upt_2 upt_3 upt_4

lemma svd_table_1:
  "svd_table [[3, 0, 0], [0, 5, 0], [0, 0, 4]] = ([5, 4, 3], [[0, 1, 0], [0, 0, 1], [1, 0, 0]])"
  by (simp add: svd_table_def)

lemma diagflat_3: "diagflat [a, b, c] = [[a, 0, 0], [0, b, 0], [0, 0, c]]"
  by (simp add: diagflat_def upt_3)

lemma diagflat_2: "diagflat [a, b] = [[a, 0], [0, b]]"
  by (simp add: diagflat_def upt_2)

lemma dot_3_3:
  "dot [[a, 0, 0], [0, b, 0], [0, 0, c]] [[p1, p2, p3], [q1, q2, q3], [r1, r2, r3]] =
   [[a * p1, a * p2, a * p3], [b * q1, b * q2, b * q3], [c * r1, c * r2, c * r3]]"
  by (simp add: dot_def col_def inner_def ncols_def upt_3)

lemma shrink_1:
  "shrink svd_table 1 [[3, 0, 0], [0, 5, 0], [0, 0, 4]] =
     Inr ([[0, 3, 0], [0, 0, 0], [0, 0, 0]], [1, 2])"
  by (simp add: shrink_def svd_table_1 py_index_def Let_def sqrt_9 diagflat_3 dot_3_3 upt_3
      py_round_7_eq_0_iff float_limit_def)

lemma demo_step_1:
  "add_sample svd_table (fresh 1 (Some 2)) [3, 0, 0] =
     (Inr (), \<lparr>ell = 1, k = 2, M = Some 3, N = 1,
               mat_b = Some [[3, 0, 0], [0, 0, 0], [0, 0, 0]], zero_rows = Some [1, 2]\<rparr>)"
  by (simp add: eval_add)

lemma demo_step_2:
  "add_sample svd_table
     \<lparr>ell = 1, k = 2, M = Some 3, N = 1,
      mat_b = Some [[3, 0, 0], [0, 0, 0], [0, 0, 0]], zero_rows = Some [1, 2]\<rparr> [0, 5, 0] =
     (Inr (), \<lparr>ell = 1, k = 2, M = Some 3, N = 2,
               mat_b = Some [[3, 0, 0], [0, 5, 0], [0, 0, 0]], zero_rows = Some [2]\<rparr>)"
  by (simp add: eval_add)

lemma demo_step_3:
  "add_sample svd_table
     \<lparr>ell = 1, k = 2, M = Some 3, N = 2,
      mat_b = Some [[3, 0, 0], [0, 5, 0], [0, 0, 0]], zero_rows = Some [2]\<rparr> [0, 0, 4] =
     (Inr (), \<lparr>ell = 1, k = 2, M = Some 3, N = 3,
               mat_b = Some [[0, 3, 0], [0, 0, 0], [0, 0, 0]], zero_rows = Some [1, 2]\<rparr>)"
  by (simp add: eval_add shrink_1)

lemma demo_step_4:
  "add_sample svd_table
     \<lparr>ell = 1, k = 2, M = Some 3, N = 3,
      mat_b = Some [[0, 3, 0], [0, 0, 0], [0, 0, 0]], zero_rows = Some [1, 2]\<rparr> [1, 2, 3] =
     (Inr (), \<lparr>ell = 1, k = 2, M = Some 3, N = 4,
               mat_b = Some [[0, 3, 0], [1, 2, 3], [0, 0, 0]], zero_rows = Some [2]\<rparr>)"
  by (simp add: eval_add)

lemma demo_run_3:
  "add_samples svd_table (fresh 1 (Some 2)) [[3, 0, 0], [0, 5, 0], [0, 0, 4]] =
     (Inr (), \<lparr>ell = 1, k = 2, M = Some 3, N = 3,
               mat_b = Some [[0, 3, 0], [0, 0, 0], [0, 0, 0]], zero_rows = Some [1, 2]\<rparr>)"
  by (simp only: add_samples.simps demo_step_1 demo_step_2 demo_step_3 prod.case sum.case)

lemma demo_run_4:
  "add_samples svd_table (fresh 1 (Some 2)) [[3, 0, 0], [0, 5, 0], [0, 0, 4], [1, 2, 3]] =
     (Inr (), \<lparr>ell = 1, k = 2, M = Some 3, N = 4,
               mat_b = Some [[0, 3, 0], [1, 2, 3], [0, 0, 0]], zero_rows = Some [2]\<rparr>)"
  by (simp only: add_samples.simps demo_step_1 demo_step_2 demo_step_3 demo_step_4
      prod.case sum.case)

text \<open>
Claim C8 on the demo run: three rows give \<open>N = 3\<close>, a fourth gives \<open>N = 4\<close>.
\<close>

theorem add_increments_N_witness:
  "add_samples svd_table (fresh 1 (Some 2)) [[3, 0, 0], [0, 5, 0], [0, 0, 4]] =
     (Inr (), \<lparr>ell = 1, k = 2, M = Some 3, N = 3,
               mat_b = Some [[0, 3, 0], [0, 0, 0], [0, 0, 0]], zero_rows = Some [1, 2]\<rparr>) \<and>
   N \<lparr>ell = 1, k = 2, M = Some 3, N = 3,
      mat_b = Some [[0, 3, 0], [0, 0, 0], [0, 0, 0]], zero_rows = Some [1, 2]\<rparr> = 3 \<and>
   N \<lparr>ell = 1, k = 2, M = Some 3, N = 4,
      mat_b = Some [[0, 3, 0], [1, 2, 3], [0, 0, 0]], zero_rows = Some [2]\<rparr> = 3 + 1"
  using add_increments_N[OF demo_run_3] demo_run_3 demo_step_4 by simp

text \<open>
Claim C9 on the demo run: after four rows the reset returns the first row of the buffer
and the fresh engine.
\<close>

theorem get_result_reset_witness:
  "get_result \<lparr>ell = 1, k = 2, M = Some 3, N = 4,
      mat_b = Some [[0, 3, 0], [1, 2, 3], [0, 0, 0]], zero_rows = Some [2]\<rparr> True =
     (Inr [[0, 3, 0]], fresh 1 (Some 2)) \<and>
   \<not> is_initialized (fresh 1 (Some 2)) \<and>
   add_samples svd_table (fresh 1 (Some 2)) [[3, 0, 0]] =
     (Inr (), \<lparr>ell = 1, k = 2, M = Some 3, N = 1,
               mat_b = Some [[3, 0, 0], [0, 0, 0], [0, 0, 0]], zero_rows = Some [1, 2]\<rparr>)"
proof -
  have g: "get_result \<lparr>ell = 1, k = 2, M = Some 3, N = 4,
      mat_b = Some [[0, 3, 0], [1, 2, 3], [0, 0, 0]], zero_rows = Some [2]\<rparr> True =
     (Inr [[0, 3, 0]], fresh 1 (Some 2))"
    by (simp add: get_result_def py_slice_to_def)
  from get_result_reset[OF demo_run_4 g, where rows' = "[[3, 0, 0]]"] g
  show ?thesis by (simp add: demo_step_1)
qed

text \<open>
Claim C4 on the demo run: with \<open>ell + k = 3\<close> the call raises at \<open>N = 3\<close> and returns
the first row at \<open>N = 4\<close>.
\<close>

theorem get_result_boundary_witness:
  "get_result \<lparr>ell = 1, k = 2, M = Some 3, N = 3,
      mat_b = Some [[0, 3, 0], [0, 0, 0], [0, 0, 0]], zero_rows = Some [1, 2]\<rparr> False =
     (Inl ValueError, \<lparr>ell = 1, k = 2, M = Some 3, N = 3,
      mat_b = Some [[0, 3, 0], [0, 0, 0], [0, 0, 0]], zero_rows = Some [1, 2]\<rparr>) \<and>
   fst (get_result \<lparr>ell = 1, k = 2, M = Some 3, N = 4,
      mat_b = Some [[0, 3, 0], [1, 2, 3], [0, 0, 0]], zero_rows = Some [2]\<rparr> False) =
     Inr [[0, 3, 0]]"
  using get_result_boundary[of "\<lparr>ell = 1, k = 2, M = Some 3, N = 3,
      mat_b = Some [[0, 3, 0], [0, 0, 0], [0, 0, 0]], zero_rows = Some [1, 2]\<rparr>" False]
    get_result_boundary[of "\<lparr>ell = 1, k = 2, M = Some 3, N = 4,
      mat_b = Some [[0, 3, 0], [1, 2, 3], [0, 0, 0]], zero_rows = Some [2]\<rparr>" False
      "[[0, 3, 0], [1, 2, 3], [0, 0, 0]]"]
  by simp

text \<open>
Claim C7 at \<open>ell = 5\<close>: a first row of length 5 raises, a first row of length 6
initializes a buffer of 16 rows of 6 zeros and is written into row 0.
\<close>

theorem first_add_initializes_witness:
  "add_sample svd_table (fresh 5 None) [1, 2, 3, 4, 5] =
     (Inl ValueError, (fresh 5 None)\<lparr>M := Some 5\<rparr>) \<and>
   initialize (fresh 5 None) [1, 2, 3, 4, 5, 6] =
     (Inr (), (fresh 5 None)\<lparr>M := Some 6, N := 0,
                             mat_b := Some (replicate 16 [0, 0, 0, 0, 0, 0]),
                             zero_rows := Some [0..<16]\<rparr>) \<and>
   add_sample svd_table (fresh 5 None) [1, 2, 3, 4, 5, 6] =
     (Inr (), (fresh 5 None)\<lparr>M := Some 6, N := 1,
                             mat_b := Some ((replicate 16 [0, 0, 0, 0, 0, 0])
                                             [0 := [1, 2, 3, 4, 5, 6]]),
                             zero_rows := Some [1..<16]\<rparr>)"
proof -
  have u: "\<not> is_initialized (fresh 5 None)" by (simp add: is_initialized_def fresh_def)
  have r6: "replicate (Suc (Suc (Suc (Suc (Suc (Suc 0)))))) (0::real) = [0, 0, 0, 0, 0, 0]"
    by simp
  note a = first_add_initializes[OF u, of "[1, 2, 3, 4, 5]" svd_table]
  note b = first_add_initializes[OF u, of "[1, 2, 3, 4, 5, 6]" svd_table]
  have 1: "add_sample svd_table (fresh 5 None) [1, 2, 3, 4, 5] =
     (Inl ValueError, (fresh 5 None)\<lparr>M := Some 5\<rparr>)"
    using a[THEN conjunct1] by (simp add: fresh_def)
  have 2: "initialize (fresh 5 None) [1, 2, 3, 4, 5, 6] =
     (Inr (), (fresh 5 None)\<lparr>M := Some 6, N := 0,
                             mat_b := Some (replicate 16 [0, 0, 0, 0, 0, 0]),
                             zero_rows := Some [0..<16]\<rparr>)"
    using b[THEN conjunct2, THEN conjunct1] by (simp add: fresh_def r6)
  have 3: "add_sample svd_table (fresh 5 None) [1, 2, 3, 4, 5, 6] =
     (Inr (), (fresh 5 None)\<lparr>M := Some 6, N := 1,
                             mat_b := Some ((replicate 16 [0, 0, 0, 0, 0, 0])
                                             [0 := [1, 2, 3, 4, 5, 6]]),
                             zero_rows := Some [1..<16]\<rparr>)"
    using b[THEN conjunct2, THEN conjunct2] by (simp add: fresh_def r6)
  from 1 2 3 show ?thesis by blast
qed

subsection \<open>The product with a diagonal matrix\<close>



lemma length_dot_diagflat: "length (dot (diagflat st) vt) = length st"
  by (simp add: dot_def diagflat_def)

lemma length_dot_diagflat_row:
  "i < length st \<Longrightarrow> length (dot (diagflat st) vt ! i) = ncols vt"
  by (simp add: dot_def diagflat_def)


lemma sigma_tilda_shrunk:
  "map (\<lambda>d. if d < 0 then 0 else sqrt d) (map (\<lambda>x. x ^ 2 - c) sigma) = map (shrunk c) sigma"
  by (simp add: shrunk_def max_def)









subsection \<open>A row of the wrong length\<close>

text \<open>
Claim C6, amended: on an initialized engine a row whose length is neither \<open>M\<close> nor 1
is refused by the array assignment with \<open>ValueError\<close>, and the engine is unchanged. A row
of length 1 is never refused for its length: the call behaves as with the row of \<open>M\<close>
copies of its entry, and when the buffer is not full afterwards it writes that row,
consumes the free row and increments \<open>N\<close>.
\<close>

theorem mismatched_row_rejected:
  assumes "is_initialized e" "mat_b e = Some b" "zero_rows e = Some (z # zs)"
    and "z < length b" "length (b ! z) = m"
  shows "(length row \<noteq> m \<and> length row \<noteq> 1 \<longrightarrow> add_sample svd e row = (Inl ValueError, e)) \<and>
         add_sample svd e [x] = add_sample svd e (replicate m x) \<and>
         (zs \<noteq> [] \<longrightarrow>
            add_sample svd e [x] =
              (Inr (), e\<lparr>mat_b := Some (b[z := replicate m x]), zero_rows := Some zs,
                        N := N e + 1\<rparr>))"
proof -
  have 1: "add_sample svd e row = (Inl ValueError, e)"
    if "length row \<noteq> m" "length row \<noteq> 1"
    using assms that by (simp add: add_sample_def set_row_def)
  have s1: "set_row b z [x] = Inr (b[z := replicate m x])"
    using assms(4,5) by (cases "m = 1") (simp_all add: set_row_def)
  have s2: "set_row b z (replicate m x) = Inr (b[z := replicate m x])"
    using assms(4,5) by (simp add: set_row_def)
  have 2: "add_sample svd e [x] = add_sample svd e (replicate m x)"
    using assms(1-3) s1 s2 by (simp add: add_sample_def)
  have 3: "add_sample svd e [x] =
      (Inr (), e\<lparr>mat_b := Some (b[z := replicate m x]), zero_rows := Some zs, N := N e + 1\<rparr>)"
    if "zs \<noteq> []"
    using assms(1-3) s1 that by (simp add: add_sample_def Let_def)
  from 1 2 3 show ?thesis by blast
qed

text \<open>
Claim C6, amended, on the demo engine with \<open>M = 3\<close>: a row of length 2 is refused; the
row \<open>[9]\<close> is treated as \<open>[9, 9, 9]\<close>, written and counted.
\<close>

theorem mismatched_row_rejected_witness:
  "add_sample svd_table
     \<lparr>ell = 1, k = 2, M = Some 3, N = 1,
      mat_b = Some [[3, 0, 0], [0, 0, 0], [0, 0, 0]], zero_rows = Some [1, 2]\<rparr> [7, 8] =
     (Inl ValueError,
      \<lparr>ell = 1, k = 2, M = Some 3, N = 1,
       mat_b = Some [[3, 0, 0], [0, 0, 0], [0, 0, 0]], zero_rows = Some [1, 2]\<rparr>) \<and>
   add_sample svd_table
     \<lparr>ell = 1, k = 2, M = Some 3, N = 1,
      mat_b = Some [[3, 0, 0], [0, 0, 0], [0, 0, 0]], zero_rows = Some [1, 2]\<rparr> [9] =
   add_sample svd_table
     \<lparr>ell = 1, k = 2, M = Some 3, N = 1,
      mat_b = Some [[3, 0, 0], [0, 0, 0], [0, 0, 0]], zero_rows = Some [1, 2]\<rparr> [9, 9, 9] \<and>
   add_sample svd_table
     \<lparr>ell = 1, k = 2, M = Some 3, N = 1,
      mat_b = Some [[3, 0, 0], [0, 0, 0], [0, 0, 0]], zero_rows = Some [1, 2]\<rparr> [9] =
     (Inr (),
      \<lparr>ell = 1, k = 2, M = Some 3, N = 2,
       mat_b = Some [[3, 0, 0], [9, 9, 9], [0, 0, 0]], zero_rows = Some [2]\<rparr>)"
proof -
  let ?e = "\<lparr>ell = 1, k = 2, M = Some 3, N = 1,
      mat_b = Some [[3, 0, 0], [0, 0, 0], [0, 0, 0]], zero_rows = Some [1, 2]\<rparr>"
  have 1: "is_initialized ?e" by (simp add: is_initialized_def)
  have 2: "mat_b ?e = Some [[3, 0, 0], [0, 0, 0], [0, 0, 0]]" by simp
  have 3: "zero_rows ?e = Some [1, 2]" by simp
  have 4: "1 < length [[3, 0, 0], [0, 0, 0], [0, 0, 0::real]]" by simp
  have 5: "length ([[3, 0, 0], [0, 0, 0], [0, 0, 0::real]] ! 1) = 3" by simp
  note t = mismatched_row_rejected[where svd = svd_table, OF 1 2 3 4 5]
  have a: "add_sample svd_table ?e [7, 8] = (Inl ValueError, ?e)"
    using t[of "[7, 8]", THEN conjunct1] by simp
  have b: "add_sample svd_table ?e [9] = add_sample svd_table ?e [9, 9, 9]"
    using t[of "[]" 9, THEN conjunct2, THEN conjunct1] by (simp add: replicate_3)
  have c: "add_sample svd_table ?e [9] =
     (Inr (), \<lparr>ell = 1, k = 2, M = Some 3, N = 2,
       mat_b = Some [[3, 0, 0], [9, 9, 9], [0, 0, 0]], zero_rows = Some [2]\<rparr>)"
    using t[of "[]" 9, THEN conjunct2, THEN conjunct2] by (simp add: replicate_3)
  from a b c show ?thesis by blast
qed

text \<open>
Claim C6 as stated fails: with \<open>M = 3\<close> a row of length 1 is accepted, broadcast to
the whole buffer row, and counted.
\<close>

theorem length_one_row_counterexample:
  "add_sample svd_table
     \<lparr>ell = 1, k = 2, M = Some 3, N = 1,
      mat_b = Some [[3, 0, 0], [0, 0, 0], [0, 0, 0]], zero_rows = Some [1, 2]\<rparr> [7] =
     (Inr (),
      \<lparr>ell = 1, k = 2, M = Some 3, N = 2,
       mat_b = Some [[3, 0, 0], [7, 7, 7], [0, 0, 0]], zero_rows = Some [2]\<rparr>)"
  by (simp add: eval_add)

subsection \<open>Shapes\<close>

lemma set_row_shape:
  assumes "set_row b z row = Inr b1" "list_all (\<lambda>r. length r = m) b"
  shows "length b1 = length b" "list_all (\<lambda>r. length r = m) b1" "z < length b"
proof -
  from assms(1) have z: "z < length b"
    by (auto simp: set_row_def split: if_splits)
  then have mz: "length (b ! z) = m" using assms(2) by (simp add: list_all_length)
  from assms(1) z obtain r where r: "b1 = b[z := r]" "length r = m"
    using mz by (auto simp: set_row_def split: if_splits)
  show "length b1 = length b" using r by simp
  show "z < length b" by (rule z)
  show "list_all (\<lambda>r. length r = m) b1"
    unfolding list_all_length
  proof (intro allI impI)
    fix i assume "i < length b1"
    then show "length (b1 ! i) = m"
      using r assms(2) by (cases "i = z") (simp_all add: list_all_length)
  qed
qed

lemma ncols_rows:
  assumes "list_all (\<lambda>r. length r = m) a" "a \<noteq> []"
  shows "ncols a = m"
  using assms by (cases a) (simp_all add: ncols_def)

lemma svd_shapeD:
  assumes "svd_shape svd" "svd a = (s, vt)"
  shows "length s = min (length a) (ncols a)" "length vt = length s"
    "\<And>r. r \<in> set vt \<Longrightarrow> length r = ncols a"
  using assms unfolding svd_shape_def by (auto split: prod.splits)

lemma shrink_shape:
  assumes "svd_shape svd" "shrink svd l b1 = Inr (b2, zr)"
    and "b1 \<noteq> []" "list_all (\<lambda>r. length r = m) b1"
  shows "length b2 = min (length b1) m" "list_all (\<lambda>r. length r = m) b2"
    "list_all (\<lambda>z. z < length b2) zr"
proof -
  obtain s vt where sv: "svd b1 = (s, vt)" by (cases "svd b1")
  note sh = svd_shapeD[OF assms(1) sv]
  have nc: "ncols b1 = m" using assms(3,4) by (rule ncols_rows[rotated])
  from assms(2) sv obtain st where
    b2: "b2 = dot (diagflat st) vt" and st: "length st = length s"
    and zr: "zr = filter (\<lambda>i. py_round (sum_list (b2 ! i)) 7 = 0) [0..<length b2]"
    by (auto simp: shrink_def Let_def split: option.splits if_splits)
  show "length b2 = min (length b1) m"
    using b2 st sh(1) nc by (simp add: length_dot_diagflat)
  show "list_all (\<lambda>z. z < length b2) zr"
    using zr by (simp add: list_all_iff)
  show "list_all (\<lambda>r. length r = m) b2"
    unfolding list_all_length
  proof (intro allI impI)
    fix i assume "i < length b2"
    then have i: "i < length st" using b2 by (simp add: length_dot_diagflat)
    then have "vt \<noteq> []" using st sh(2) by auto
    then have "hd vt \<in> set vt" by simp
    then have "ncols vt = m" using sh(3) nc \<open>vt \<noteq> []\<close> by (cases vt) (simp_all add: ncols_def)
    then show "length (b2 ! i) = m" using b2 i by (simp add: length_dot_diagflat_row)
  qed
qed


subsection \<open>The free list never runs empty\<close>









lemma svd_default_shape:
  "case svd_default a of (s, vt) \<Rightarrow>
     length s = min (length a) (ncols a) \<and> length vt = length s \<and>
     (\<forall>r \<in> set vt. length r = ncols a)"
proof -
  have "r \<in> set (take n (identity c)) \<Longrightarrow> length r = c" for r n c
    by (auto simp: identity_def diagflat_def dest!: in_set_takeD)
  then show ?thesis
    by (auto simp: svd_default_def identity_def diagflat_def)
qed

lemma svd_table_shape: "svd_shape svd_table"
  unfolding svd_shape_def
proof
  fix a
  show "case svd_table a of (s, vt) \<Rightarrow>
     length s = min (length a) (ncols a) \<and> length vt = length s \<and>
     (\<forall>r \<in> set vt. length r = ncols a)"
    using svd_default_shape[of a]
    by (simp add: svd_table_def ncols_def)
qed





text \<open>
  Where the model stops: with \<open>ell = 1\<close>, \<open>k = 1\<close> the rows \<open>[10\<^sup>2\<^sup>0\<^sup>0, 0]\<close> and \<open>[0, 10\<^sup>2\<^sup>0\<^sup>0]\<close>
  have singular values whose squares overflow, and the second call ends with \<open>NotFinite\<close>.
\<close>

lemma overflow_leaves_model:
  "add_each svd_table (fresh 1 (Some 1)) [[10 ^ 200, 0], [0, 10 ^ 200], [1, 1]] =
     ([Inr (), Inl NotFinite],
      \<lparr>ell = 1, k = 1, M = Some 2, N = 1,
       mat_b = Some [[10 ^ 200, 0], [0, 10 ^ 200]], zero_rows = Some []\<rparr>)"
proof -
  have t: "svd_table [[10 ^ 200, 0], [0, 10 ^ 200]] = ([10 ^ 200, 10 ^ 200], [[1, 0], [0, 1]])"
    by (simp add: svd_table_def)
  have s: "shrink svd_table 1 [[10 ^ 200, 0], [0, 10 ^ 200]] = Inl NotFinite"
    unfolding shrink_def t by (simp add: py_index_def float_limit_def)
  have a: "add_sample svd_table (fresh 1 (Some 1)) [10 ^ 200, 0] =
      (Inr (), \<lparr>ell = 1, k = 1, M = Some 2, N = 1,
                mat_b = Some [[10 ^ 200, 0], [0, 0]], zero_rows = Some [1]\<rparr>)"
    by (simp add: eval_add)
  have b: "add_sample svd_table
      \<lparr>ell = 1, k = 1, M = Some 2, N = 1,
       mat_b = Some [[10 ^ 200, 0], [0, 0]], zero_rows = Some [1]\<rparr> [0, 10 ^ 200] =
      (Inl NotFinite, \<lparr>ell = 1, k = 1, M = Some 2, N = 1,
                mat_b = Some [[10 ^ 200, 0], [0, 10 ^ 200]], zero_rows = Some []\<rparr>)"
    using s by (simp add: eval_add)
  have n: "(Inr () :: error + unit) \<noteq> Inl NotFinite" by simp
  show ?thesis
    by (simp only: add_each.simps a b prod.case n if_False if_True refl)
qed

subsection \<open>Runs, split in two\<close>

lemma add_samples_append:
  "add_samples svd e (xs @ ys) =
     (case add_samples svd e xs of
        (Inl err, e') \<Rightarrow> (Inl err, e')
      | (Inr u, e') \<Rightarrow> add_samples svd e' ys)"
  by (induction xs arbitrary: e) (auto split: prod.splits sum.splits)

lemma shrink_count_append:
  "add_samples svd e xs = (Inr u, e1) \<Longrightarrow>
     shrink_count svd e (xs @ ys) = shrink_count svd e xs + shrink_count svd e1 ys"
  by (induction xs arbitrary: e) (auto split: prod.splits sum.splits)

lemma exhausts_initialized:
  "is_initialized e \<Longrightarrow> zero_rows e = Some (z # zs) \<Longrightarrow>
     exhausts_free_rows e row = (zs = [])"
  by (simp add: exhausts_free_rows_def)

lemma add_sample_initialized:
  assumes "is_initialized e" "add_sample svd e row = (Inr u, e')"
  obtains z zs b b1 where
    "zero_rows e = Some (z # zs)" "mat_b e = Some b" "set_row b z row = Inr b1"
    "zs = [] \<Longrightarrow> \<exists>b2 zr. shrink svd (ell e) b1 = Inr (b2, zr) \<and>
        e' = e\<lparr>mat_b := Some b2, zero_rows := Some zr, N := N e + 1\<rparr>"
    "zs \<noteq> [] \<Longrightarrow> e' = e\<lparr>mat_b := Some b1, zero_rows := Some zs, N := N e + 1\<rparr>"
  using assms(2)
proof (rule add_sample_OkE)
  fix e1 z zs b b1
  assume "if is_initialized e then e1 = e else initialize e row = (Inr (), e1)"
  then have "e1 = e" using assms(1) by simp
  moreover assume "zero_rows e1 = Some (z # zs)" "mat_b e1 = Some b" "set_row b z row = Inr b1"
    "zs = [] \<Longrightarrow> \<exists>b2 zr. shrink svd (ell e1) b1 = Inr (b2, zr) \<and>
        e' = e1\<lparr>mat_b := Some b2, zero_rows := Some zr, N := N e1 + 1\<rparr>"
    "zs \<noteq> [] \<Longrightarrow> e' = e1\<lparr>mat_b := Some b1, zero_rows := Some zs, N := N e1 + 1\<rparr>"
  ultimately show ?thesis using that by simp
qed

lemma add_sample_shape:
  assumes "svd_shape svd" "is_initialized e" "mat_b e = Some b" "has_shape b r m"
    and "add_sample svd e row = (Inr u, e')"
  shows "is_initialized e' \<and> M e' = M e \<and> ell e' = ell e \<and> k e' = k e \<and>
         (\<exists>b'. mat_b e' = Some b' \<and>
               has_shape b' (if exhausts_free_rows e row then min r m else r) m)"
  using assms(2,5)
proof (rule add_sample_initialized)
  fix z zs b0 b1
  assume f: "zero_rows e = Some (z # zs)" "mat_b e = Some b0" "set_row b0 z row = Inr b1"
    and s: "zs = [] \<Longrightarrow> \<exists>b2 zr. shrink svd (ell e) b1 = Inr (b2, zr) \<and>
        e' = e\<lparr>mat_b := Some b2, zero_rows := Some zr, N := N e + 1\<rparr>"
    and t: "zs \<noteq> [] \<Longrightarrow> e' = e\<lparr>mat_b := Some b1, zero_rows := Some zs, N := N e + 1\<rparr>"
  from f(2) assms(3) have b0: "b0 = b" by simp
  from assms(4) have rows: "list_all (\<lambda>x. length x = m) b" and len: "length b = r"
    by (simp_all add: has_shape_def)
  note sr = set_row_shape[OF f(3)[unfolded b0] rows]
  note ex = exhausts_initialized[OF assms(2) f(1), of row]
  show ?thesis
  proof (cases "zs = []")
    case True
    from s[OF True] obtain b2 zr where sh: "shrink svd (ell e) b1 = Inr (b2, zr)"
      and e': "e' = e\<lparr>mat_b := Some b2, zero_rows := Some zr, N := N e + 1\<rparr>" by blast
    have ne: "b1 \<noteq> []" using sr(1,3) by auto
    note ss = shrink_shape[OF assms(1) sh ne sr(2)]
    have "has_shape b2 (min r m) m" using ss(1,2) sr(1) len by (simp add: has_shape_def)
    then show ?thesis using e' True ex assms(2) by (simp add: is_initialized_def)
  next
    case False
    have "has_shape b1 r m" using sr(1,2) len by (simp add: has_shape_def)
    then show ?thesis using t[OF False] False ex assms(2) by (simp add: is_initialized_def)
  qed
qed

lemma add_samples_shape:
  assumes "svd_shape svd"
  shows "is_initialized e \<Longrightarrow> mat_b e = Some b \<Longrightarrow> has_shape b (min n m) m \<Longrightarrow>
         add_samples svd e rows = (Inr u, e') \<Longrightarrow>
         is_initialized e' \<and> M e' = M e \<and> (\<exists>b'. mat_b e' = Some b' \<and> has_shape b' (min n m) m)"
proof (induction rows arbitrary: e b)
  case Nil
  then show ?case by auto
next
  case (Cons r rs)
  from Cons.prems(4) obtain e1 where
    s: "add_sample svd e r = (Inr (), e1)" and t: "add_samples svd e1 rs = (Inr u, e')"
    by (auto split: prod.splits sum.splits)
  from add_sample_shape[OF assms Cons.prems(1,2,3) s]
  obtain b1 where i1: "is_initialized e1" and m1: "M e1 = M e" and b1: "mat_b e1 = Some b1"
    and h1: "has_shape b1 (min n m) m"
    by (auto split: if_splits)
  from Cons.IH[OF i1 b1 h1 t] m1 show ?case by simp
qed

lemma before_first_shrink:
  "is_initialized e \<Longrightarrow> mat_b e = Some b \<Longrightarrow> has_shape b n m \<Longrightarrow>
   zero_rows e = Some [j..<n] \<Longrightarrow> j + length rows < n \<Longrightarrow>
   add_samples svd e rows = (Inr u, e') \<Longrightarrow>
     is_initialized e' \<and> M e' = M e \<and> ell e' = ell e \<and> k e' = k e \<and>
     (\<exists>b'. mat_b e' = Some b' \<and> has_shape b' n m) \<and>
     zero_rows e' = Some [j + length rows..<n] \<and> shrink_count svd e rows = 0"
proof (induction rows arbitrary: e b j)
  case Nil
  then show ?case by auto
next
  case (Cons r rs)
  from Cons.prems(6) obtain e1 where
    s: "add_sample svd e r = (Inr (), e1)" and t: "add_samples svd e1 rs = (Inr u, e')"
    by (auto split: prod.splits sum.splits)
  from Cons.prems(5) have jn: "j < n" "Suc j < n" by simp_all
  then have zr: "zero_rows e = Some (j # [Suc j..<n])"
    using Cons.prems(4) by (simp add: upt_conv_Cons)
  have ne: "[Suc j..<n] \<noteq> []" using jn by simp
  note ex = exhausts_initialized[OF Cons.prems(1) zr, of r]
  from Cons.prems(1) s
  have e1: "\<exists>b1. set_row b j r = Inr b1 \<and>
              e1 = e\<lparr>mat_b := Some b1, zero_rows := Some [Suc j..<n], N := N e + 1\<rparr>"
  proof (rule add_sample_initialized)
    fix z zs b0 b1
    assume "zero_rows e = Some (z # zs)" "mat_b e = Some b0" "set_row b0 z r = Inr b1"
      "zs \<noteq> [] \<Longrightarrow> e1 = e\<lparr>mat_b := Some b1, zero_rows := Some zs, N := N e + 1\<rparr>"
    then show ?thesis using zr Cons.prems(2) ne by auto
  qed
  then obtain b1 where sr: "set_row b j r = Inr b1"
    and e1: "e1 = e\<lparr>mat_b := Some b1, zero_rows := Some [Suc j..<n], N := N e + 1\<rparr>" by blast
  from Cons.prems(3) have rows: "list_all (\<lambda>x. length x = m) b" and len: "length b = n"
    by (simp_all add: has_shape_def)
  note sh = set_row_shape[OF sr rows]
  have h1: "has_shape b1 n m" using sh len by (simp add: has_shape_def)
  have i1: "is_initialized e1" using e1 Cons.prems(1) by (simp add: is_initialized_def)
  have b1: "mat_b e1 = Some b1" using e1 by simp
  have z1: "zero_rows e1 = Some [Suc j..<n]" using e1 by simp
  have l1: "Suc j + length rs < n" using Cons.prems(5) by simp
  note ih = Cons.IH[OF i1 b1 h1 z1 l1 t]
  have "shrink_count svd e (r # rs) = 0" using s ex ne ih by simp
  then show ?case using ih e1 by simp
qed

lemma first_add_reduce:
  assumes "\<not> is_initialized e" "add_sample svd e row = (Inr u, e')"
  shows "\<exists>e1. e1 = e\<lparr>M := Some (int (length row)), N := 0,
                     mat_b := Some (zeros (nat (ell e + k e)) (length row)),
                     zero_rows := Some [0..<nat (ell e + k e)]\<rparr> \<and>
              add_sample svd e1 row = (Inr u, e') \<and>
              exhausts_free_rows e row = exhausts_free_rows e1 row"
proof -
  let ?e1 = "e\<lparr>M := Some (int (length row)), N := 0,
                mat_b := Some (zeros (nat (ell e + k e)) (length row)),
                zero_rows := Some [0..<nat (ell e + k e)]\<rparr>"
  have "\<exists>e1. initialize e row = (Inr (), e1)"
    using assms(2)
  proof (rule add_sample_OkE)
    fix e1
    assume "if is_initialized e then e1 = e else initialize e row = (Inr (), e1)"
    with assms(1) show ?thesis by auto
  qed
  then obtain e1 where "initialize e row = (Inr (), e1)" by blast
  note io = initialize_Ok[OF this]
  from first_add_unfold[OF assms(1), of row svd] io(1,2)
  have i: "initialize e row = (Inr (), ?e1)" and a: "add_sample svd e row = add_sample svd ?e1 row"
    by simp_all
  have "exhausts_free_rows e row = exhausts_free_rows ?e1 row"
    using assms(1) i by (simp add: exhausts_free_rows_def is_initialized_def)
  with a assms(2) show ?thesis by simp
qed

lemma run_from_initialized:
  assumes sv: "svd_shape svd" and i1: "is_initialized e1" and b1: "mat_b e1 = Some b"
    and h1: "has_shape b n m" and z1: "zero_rows e1 = Some [0..<n]" and n: "0 < n"
    and run: "add_samples svd e1 rows = (Inr (), e)"
  shows "is_initialized e \<and> M e = M e1 \<and>
         (\<exists>b'. mat_b e = Some b' \<and> has_shape b' (if length rows < n then n else min n m) m) \<and>
         (length rows = n + 1 \<longrightarrow>
            shrink_count svd e1 rows =
              (if \<exists>z. zero_rows (snd (add_samples svd e1 (butlast rows))) = Some [z]
               then 2 else 1))"
proof (cases "length rows < n")
  case True
  then have "0 + length rows < n" by simp
  from before_first_shrink[OF i1 b1 h1 z1 this run] True show ?thesis by auto
next
  case False
  define xs where "xs = take (n - 1) rows"
  define y where "y = rows ! (n - 1)"
  define ys where "ys = drop n rows"
  have lt: "n - 1 < length rows" using False n by simp
  have rows: "rows = xs @ y # ys"
    using id_take_nth_drop[OF lt] n by (simp add: xs_def y_def ys_def)
  have lxs: "length xs = n - 1" using lt by (simp add: xs_def)
  from run rows obtain ea where ra: "add_samples svd e1 xs = (Inr (), ea)"
    and rb: "add_samples svd ea (y # ys) = (Inr (), e)"
    by (auto simp: add_samples_append split: prod.splits sum.splits)
  from rb obtain eb where sy: "add_sample svd ea y = (Inr (), eb)"
    and rc: "add_samples svd eb ys = (Inr (), e)"
    by (auto split: prod.splits sum.splits)
  have "0 + length xs < n" using lxs n by simp
  from before_first_shrink[OF i1 b1 h1 z1 this ra]
  obtain ba where ia: "is_initialized ea" and ma: "M ea = M e1" and ba: "mat_b ea = Some ba"
    and ha: "has_shape ba n m" and za: "zero_rows ea = Some [n - 1..<n]"
    and ca: "shrink_count svd e1 xs = 0"
    using lxs by auto
  have za': "zero_rows ea = Some [n - 1]" using za n by (simp add: upt_conv_Cons)
  have xa: "exhausts_free_rows ea y" using exhausts_initialized[OF ia za', of y] by simp
  from add_sample_shape[OF sv ia ba ha sy] xa
  obtain bb where ib: "is_initialized eb" and mb: "M eb = M ea" and bb: "mat_b eb = Some bb"
    and hb: "has_shape bb (min n m) m"
    by auto
  from add_samples_shape[OF sv ib bb hb rc] mb ma
  have shape: "is_initialized e \<and> M e = M e1 \<and>
      (\<exists>b'. mat_b e = Some b' \<and> has_shape b' (min n m) m)" by simp
  have count: "shrink_count svd e1 rows =
      (if \<exists>z. zero_rows (snd (add_samples svd e1 (butlast rows))) = Some [z] then 2 else 1)"
    if len: "length rows = n + 1"
  proof -
    have "length ys = 1" using len by (simp add: ys_def)
    then obtain y2 where ys: "ys = [y2]" by (cases ys) auto
    from rc ys have s2: "add_sample svd eb y2 = (Inr (), e)"
      by (auto split: prod.splits sum.splits)
    have bl: "butlast rows = xs @ [y]" using rows ys by (simp add: butlast_append)
    have "add_samples svd e1 (butlast rows) = (Inr (), eb)"
      using ra sy by (simp add: bl add_samples_append)
    then have sn: "snd (add_samples svd e1 (butlast rows)) = eb" by simp
    have x2: "exhausts_free_rows eb y2 = (\<exists>z. zero_rows eb = Some [z])"
      using ib s2
    proof (rule add_sample_initialized)
      fix z zs
      assume "zero_rows eb = Some (z # zs)"
      then show ?thesis using exhausts_initialized[OF ib, of z zs y2] by auto
    qed
    have "shrink_count svd e1 rows = shrink_count svd e1 xs + shrink_count svd ea (y # ys)"
      using shrink_count_append[OF ra] rows by simp
    also have "\<dots> = 1 + (if exhausts_free_rows eb y2 then 1 else 0)"
      using ca sy xa ys s2 by simp
    finally show ?thesis using x2 sn by simp
  qed
  from shape count False show ?thesis by auto
qed

text \<open>
Claim C1, amended: after every successful call on an engine started fresh the buffer
has \<open>M\<close> columns; it has \<open>ell + k\<close> rows until the first shrink, at call number
\<open>ell + k\<close>, and \<open>min (ell + k) M\<close> rows from then on, hence \<open>(ell + k) \<times> M\<close> throughout when
\<open>ell + k \<le> M\<close>. After \<open>ell + k + 1\<close> calls one shrink has occurred, or two when the
first shrink left a single free row.
\<close>

theorem buffer_shape:
  assumes sv: "svd_shape svd" and run: "add_samples svd (fresh l ko) rows = (Inr (), e)"
    and ne: "rows \<noteq> []"
  shows "\<exists>m b. M e = Some (int m) \<and> mat_b e = Some b \<and>
     has_shape b (if length rows < nat (l + k (fresh l ko)) then nat (l + k (fresh l ko))
                  else min (nat (l + k (fresh l ko))) m) m \<and>
     (l + k (fresh l ko) \<le> int m \<longrightarrow> has_shape b (nat (l + k (fresh l ko))) m) \<and>
     (length rows = nat (l + k (fresh l ko)) + 1 \<longrightarrow>
        shrink_count svd (fresh l ko) rows =
          (if \<exists>z. zero_rows (snd (add_samples svd (fresh l ko) (butlast rows))) = Some [z]
           then 2 else 1))"
proof -
  define n where "n = nat (l + k (fresh l ko))"
  from ne obtain r rs where rows: "rows = r # rs" by (cases rows) auto
  define m where "m = length r"
  let ?f = "fresh l ko"
  from run rows obtain ea where a1: "add_sample svd ?f r = (Inr (), ea)"
    and a2: "add_samples svd ea rs = (Inr (), e)"
    by (auto split: prod.splits sum.splits)
  have u: "\<not> is_initialized ?f" by (simp add: is_initialized_def fresh_fields)
  from first_add_reduce[OF u a1]
  obtain e1 where e1: "e1 = ?f\<lparr>M := Some (int m), N := 0,
                         mat_b := Some (zeros n m), zero_rows := Some [0..<n]\<rparr>"
    and r1: "add_sample svd e1 r = (Inr (), ea)"
    and x1: "exhausts_free_rows ?f r = exhausts_free_rows e1 r"
    by (auto simp: n_def m_def fresh_fields)
  have same: "add_samples svd ?f (r # rs') = add_samples svd e1 (r # rs')" for rs'
    using a1 r1 by simp
  have cnt: "shrink_count svd ?f rows = shrink_count svd e1 rows"
    using a1 r1 x1 rows by simp
  have i1: "is_initialized e1" using e1 by (simp add: is_initialized_def)
  have b1: "mat_b e1 = Some (zeros n m)" using e1 by simp
  have h1: "has_shape (zeros n m) n m" by (simp add: has_shape_def zeros_def list_all_iff)
  have z1: "zero_rows e1 = Some [0..<n]" using e1 by simp
  have m1: "M e1 = Some (int m)" using e1 by simp
  have n: "0 < n"
    using i1 r1
  proof (rule add_sample_initialized)
    fix z zs
    assume "zero_rows e1 = Some (z # zs)"
    with z1 show ?thesis by (cases "n = 0") auto
  qed
  have run1: "add_samples svd e1 rows = (Inr (), e)" using run same rows by simp
  note main = run_from_initialized[OF sv i1 b1 h1 z1 n run1]
  from main obtain b' where me: "M e = Some (int m)" and be: "mat_b e = Some b'"
    and he: "has_shape b' (if length rows < n then n else min n m) m"
    using m1 by auto
  have full: "has_shape b' n m" if "l + k (fresh l ko) \<le> int m"
  proof -
    from that have "min n m = n" by (simp add: n_def)
    with he show ?thesis by (simp split: if_splits)
  qed
  have count: "shrink_count svd ?f rows =
      (if \<exists>z. zero_rows (snd (add_samples svd ?f (butlast rows))) = Some [z] then 2 else 1)"
    if len: "length rows = n + 1"
  proof -
    from len n rows have "rs \<noteq> []" by auto
    then have "butlast rows = r # butlast rs" using rows by simp
    then have "add_samples svd ?f (butlast rows) = add_samples svd e1 (butlast rows)"
      using same by simp
    with main len cnt show ?thesis by simp
  qed
  from me be he full count show ?thesis unfolding n_def by blast
qed

subsection \<open>Two runs with two shrinks\<close>

lemma dot_2_2:
  "dot [[a, 0], [0, b]] [[p1, p2], [q1, q2]] = [[a * p1, a * p2], [b * q1, b * q2]]"
  by (simp add: dot_def col_def inner_def ncols_def upt_2)

lemma svd_table_2:
  "svd_table [[3, 0], [4, 0], [12, 0], [0, 12]] = ([13, 12], [[1, 0], [0, 1]])"
  by (simp add: svd_table_def)

lemma svd_table_3: "svd_table [[13, 0], [0, 12]] = ([13, 12], [[1, 0], [0, 1]])"
  by (simp add: svd_table_def)

lemma svd_table_4: "svd_table [[5, 0], [0, 3]] = ([5, 3], [[1, 0], [0, 1]])"
  by (simp add: svd_table_def)

lemmas eval_shrink = shrink_def py_index_def Let_def diagflat_2 dot_2_2 upt_2 float_limit_def
  py_round_7_eq_0_iff sqrt_16 sqrt_25

lemma shrink_2:
  "shrink svd_table 1 [[3, 0], [4, 0], [12, 0], [0, 12]] = Inr ([[5, 0], [0, 0]], [1])"
  by (simp add: eval_shrink svd_table_2)

lemma shrink_3: "shrink svd_table 1 [[13, 0], [0, 12]] = Inr ([[5, 0], [0, 0]], [1])"
  by (simp add: eval_shrink svd_table_3)

lemma shrink_4: "shrink svd_table 1 [[5, 0], [0, 3]] = Inr ([[4, 0], [0, 0]], [1])"
  by (simp add: eval_shrink svd_table_4)

lemma wide_step_1:
  "add_sample svd_table (fresh 1 None) [3, 0] =
     (Inr (), \<lparr>ell = 1, k = 3, M = Some 2, N = 1,
               mat_b = Some [[3, 0], [0, 0], [0, 0], [0, 0]], zero_rows = Some [1, 2, 3]\<rparr>)"
  by (simp add: eval_add)

lemma wide_step_2:
  "add_sample svd_table
     \<lparr>ell = 1, k = 3, M = Some 2, N = 1,
      mat_b = Some [[3, 0], [0, 0], [0, 0], [0, 0]], zero_rows = Some [1, 2, 3]\<rparr> [4, 0] =
     (Inr (), \<lparr>ell = 1, k = 3, M = Some 2, N = 2,
               mat_b = Some [[3, 0], [4, 0], [0, 0], [0, 0]], zero_rows = Some [2, 3]\<rparr>)"
  by (simp add: eval_add)

lemma wide_step_3:
  "add_sample svd_table
     \<lparr>ell = 1, k = 3, M = Some 2, N = 2,
      mat_b = Some [[3, 0], [4, 0], [0, 0], [0, 0]], zero_rows = Some [2, 3]\<rparr> [12, 0] =
     (Inr (), \<lparr>ell = 1, k = 3, M = Some 2, N = 3,
               mat_b = Some [[3, 0], [4, 0], [12, 0], [0, 0]], zero_rows = Some [3]\<rparr>)"
  by (simp add: eval_add)

lemma wide_step_4:
  "add_sample svd_table
     \<lparr>ell = 1, k = 3, M = Some 2, N = 3,
      mat_b = Some [[3, 0], [4, 0], [12, 0], [0, 0]], zero_rows = Some [3]\<rparr> [0, 12] =
     (Inr (), \<lparr>ell = 1, k = 3, M = Some 2, N = 4,
               mat_b = Some [[5, 0], [0, 0]], zero_rows = Some [1]\<rparr>)"
  by (simp add: eval_add shrink_2)

lemma wide_step_5:
  "add_sample svd_table
     \<lparr>ell = 1, k = 3, M = Some 2, N = 4,
      mat_b = Some [[5, 0], [0, 0]], zero_rows = Some [1]\<rparr> [0, 3] =
     (Inr (), \<lparr>ell = 1, k = 3, M = Some 2, N = 5,
               mat_b = Some [[4, 0], [0, 0]], zero_rows = Some [1]\<rparr>)"
  by (simp add: eval_add shrink_4)

lemmas eval_exhausts = exhausts_free_rows_def is_initialized_def initialize_def fresh_def Let_def
  upt_1 upt_2 upt_3 upt_4

lemma wide_exhausts:
  "\<not> exhausts_free_rows (fresh 1 None) [3, 0]"
  "\<not> exhausts_free_rows \<lparr>ell = 1, k = 3, M = Some 2, N = 1,
      mat_b = Some [[3, 0], [0, 0], [0, 0], [0, 0]], zero_rows = Some [1, 2, 3]\<rparr> [4, 0]"
  "\<not> exhausts_free_rows \<lparr>ell = 1, k = 3, M = Some 2, N = 2,
      mat_b = Some [[3, 0], [4, 0], [0, 0], [0, 0]], zero_rows = Some [2, 3]\<rparr> [12, 0]"
  "exhausts_free_rows \<lparr>ell = 1, k = 3, M = Some 2, N = 3,
      mat_b = Some [[3, 0], [4, 0], [12, 0], [0, 0]], zero_rows = Some [3]\<rparr> [0, 12]"
  "exhausts_free_rows \<lparr>ell = 1, k = 3, M = Some 2, N = 4,
      mat_b = Some [[5, 0], [0, 0]], zero_rows = Some [1]\<rparr> [0, 3]"
  by (simp_all add: eval_exhausts)

lemma wide_run:
  "add_samples svd_table (fresh 1 None) [[3, 0], [4, 0], [12, 0], [0, 12], [0, 3]] =
     (Inr (), \<lparr>ell = 1, k = 3, M = Some 2, N = 5,
               mat_b = Some [[4, 0], [0, 0]], zero_rows = Some [1]\<rparr>)"
  by (simp only: add_samples.simps wide_step_1 wide_step_2 wide_step_3 wide_step_4 wide_step_5
      prod.case sum.case)

lemma wide_count:
  "shrink_count svd_table (fresh 1 None) [[3, 0], [4, 0], [12, 0], [0, 12], [0, 3]] = 2"
  by (simp only: shrink_count.simps wide_step_1 wide_step_2 wide_step_3 wide_step_4
      wide_step_5 prod.case sum.case wide_exhausts if_True if_False)

lemma tight_step_1:
  "add_sample svd_table (fresh 1 (Some 1)) [13, 0] =
     (Inr (), \<lparr>ell = 1, k = 1, M = Some 2, N = 1,
               mat_b = Some [[13, 0], [0, 0]], zero_rows = Some [1]\<rparr>)"
  by (simp add: eval_add)

lemma tight_step_2:
  "add_sample svd_table
     \<lparr>ell = 1, k = 1, M = Some 2, N = 1,
      mat_b = Some [[13, 0], [0, 0]], zero_rows = Some [1]\<rparr> [0, 12] =
     (Inr (), \<lparr>ell = 1, k = 1, M = Some 2, N = 2,
               mat_b = Some [[5, 0], [0, 0]], zero_rows = Some [1]\<rparr>)"
  by (simp add: eval_add shrink_3)

lemma tight_step_3:
  "add_sample svd_table
     \<lparr>ell = 1, k = 1, M = Some 2, N = 2,
      mat_b = Some [[5, 0], [0, 0]], zero_rows = Some [1]\<rparr> [0, 3] =
     (Inr (), \<lparr>ell = 1, k = 1, M = Some 2, N = 3,
               mat_b = Some [[4, 0], [0, 0]], zero_rows = Some [1]\<rparr>)"
  by (simp add: eval_add shrink_4)

lemma tight_exhausts:
  "\<not> exhausts_free_rows (fresh 1 (Some 1)) [13, 0]"
  "exhausts_free_rows \<lparr>ell = 1, k = 1, M = Some 2, N = 1,
      mat_b = Some [[13, 0], [0, 0]], zero_rows = Some [1]\<rparr> [0, 12]"
  "exhausts_free_rows \<lparr>ell = 1, k = 1, M = Some 2, N = 2,
      mat_b = Some [[5, 0], [0, 0]], zero_rows = Some [1]\<rparr> [0, 3]"
  by (simp_all add: eval_exhausts)

lemma tight_run:
  "add_samples svd_table (fresh 1 (Some 1)) [[13, 0], [0, 12], [0, 3]] =
     (Inr (), \<lparr>ell = 1, k = 1, M = Some 2, N = 3,
               mat_b = Some [[4, 0], [0, 0]], zero_rows = Some [1]\<rparr>)"
  by (simp only: add_samples.simps tight_step_1 tight_step_2 tight_step_3 prod.case sum.case)

lemma tight_count:
  "shrink_count svd_table (fresh 1 (Some 1)) [[13, 0], [0, 12], [0, 3]] = 2"
  by (simp only: shrink_count.simps tight_step_1 tight_step_2 tight_step_3
      prod.case sum.case tight_exhausts if_True if_False)

text \<open>
Claim C1 as stated fails twice. With \<open>ell = 1\<close>, the default \<open>k = 3\<close> and \<open>M = 2\<close> the
reduced SVD leaves a \<open>2 \<times> 2\<close> buffer, not \<open>4 \<times> 2\<close>, and the five calls shrink twice.
With \<open>ell = 1\<close>, \<open>k = 1\<close>, \<open>M = 2\<close> the shape is kept but the three calls shrink twice.
\<close>

theorem buffer_shape_counterexample:
  "add_samples svd_table (fresh 1 None) [[3, 0], [4, 0], [12, 0], [0, 12], [0, 3]] =
     (Inr (), \<lparr>ell = 1, k = 3, M = Some 2, N = 5,
               mat_b = Some [[4, 0], [0, 0]], zero_rows = Some [1]\<rparr>) \<and>
   \<not> has_shape [[4, 0], [0, 0]] 4 2 \<and>
   shrink_count svd_table (fresh 1 None) [[3, 0], [4, 0], [12, 0], [0, 12], [0, 3]] = 2 \<and>
   add_samples svd_table (fresh 1 (Some 1)) [[13, 0], [0, 12], [0, 3]] =
     (Inr (), \<lparr>ell = 1, k = 1, M = Some 2, N = 3,
               mat_b = Some [[4, 0], [0, 0]], zero_rows = Some [1]\<rparr>) \<and>
   shrink_count svd_table (fresh 1 (Some 1)) [[13, 0], [0, 12], [0, 3]] = 2"
  using wide_run wide_count tight_run tight_count by (simp add: has_shape_def)

text \<open>
Claim C1, amended, on the demo run (\<open>ell + k = 3 = M\<close>): after four rows the buffer is
still \<open>3 \<times> 3\<close> and one shrink has occurred.
\<close>

theorem buffer_shape_witness:
  "svd_shape svd_table \<and>
   add_samples svd_table (fresh 1 (Some 2)) [[3, 0, 0], [0, 5, 0], [0, 0, 4], [1, 2, 3]] =
     (Inr (), \<lparr>ell = 1, k = 2, M = Some 3, N = 4,
               mat_b = Some [[0, 3, 0], [1, 2, 3], [0, 0, 0]], zero_rows = Some [2]\<rparr>) \<and>
   has_shape [[0, 3, 0], [1, 2, 3], [0, 0, 0]] 3 3 \<and>
   shrink_count svd_table (fresh 1 (Some 2)) [[3, 0, 0], [0, 5, 0], [0, 0, 4], [1, 2, 3]] = 1"
proof -
  note t = buffer_shape[OF svd_table_shape demo_run_4]
  have bl: "butlast [[3, 0, 0], [0, 5, 0], [0, 0, 4], [1, 2, 3::real]] =
      [[3, 0, 0], [0, 5, 0], [0, 0, 4]]" by simp
  have z: "zero_rows (snd (add_samples svd_table (fresh 1 (Some 2))
      (butlast [[3, 0, 0], [0, 5, 0], [0, 0, 4], [1, 2, 3]]))) = Some [1, 2]"
    by (simp only: bl demo_run_3 snd_conv) simp
  have nz: "\<not> (\<exists>z. Some [1, 2::nat] = Some [z])" by simp
  from t z nz svd_table_shape demo_run_4 show ?thesis
    by (auto simp: fresh_fields)
qed

subsection \<open>The table holds singular value decompositions\<close>

lemmas eval_mat = is_svd_def dot_def transpose_mat_def col_def inner_def ncols_def identity_def
  diagflat_def upt_1 upt_2 upt_3 upt_4 replicate_2 replicate_3 replicate_4

lemma svd_table_5: "svd_table [[3, 4]] = ([5], [[3 / 5, 4 / 5]])"
  by (simp add: svd_table_def)

lemma svd_table_6:
  "svd_table [[17, 0, 0, 0], [0, 10, 0, 0], [0, 0, 8, 0], [0, 0, 0, 1]] =
     ([17, 10, 8, 1], [[1, 0, 0, 0], [0, 1, 0, 0], [0, 0, 1, 0], [0, 0, 0, 1]])"
  by (simp add: svd_table_def)

lemma svd_table_7:
  "svd_table [[464, 0, 0, 0], [0, 64, 0, 0], [0, 0, 64, 0], [0, 0, 0, 1]] =
     ([464, 64, 64, 1], [[1, 0, 0, 0], [0, 1, 0, 0], [0, 0, 1, 0], [0, 0, 0, 1]])"
  by (simp add: svd_table_def)

lemma is_svd_1:
  "is_svd [[3, 0, 0], [0, 5, 0], [0, 0, 4]] [[0, 0, 1], [1, 0, 0], [0, 1, 0]]
     [5, 4, 3] [[0, 1, 0], [0, 0, 1], [1, 0, 0]]"
  by (simp add: eval_mat)

lemma is_svd_2:
  "is_svd [[3, 0], [4, 0], [12, 0], [0, 12]]
     [[3 / 13, 0], [4 / 13, 0], [12 / 13, 0], [0, 1]] [13, 12] [[1, 0], [0, 1]]"
  by (simp add: eval_mat)

lemma is_svd_3: "is_svd [[13, 0], [0, 12]] [[1, 0], [0, 1]] [13, 12] [[1, 0], [0, 1]]"
  by (simp add: eval_mat)

lemma is_svd_4: "is_svd [[5, 0], [0, 3]] [[1, 0], [0, 1]] [5, 3] [[1, 0], [0, 1]]"
  by (simp add: eval_mat)

lemma is_svd_5: "is_svd [[3, 4]] [[1]] [5] [[3 / 5, 4 / 5]]"
  by (simp add: eval_mat)

lemma is_svd_6:
  "is_svd [[17, 0, 0, 0], [0, 10, 0, 0], [0, 0, 8, 0], [0, 0, 0, 1]]
     [[1, 0, 0, 0], [0, 1, 0, 0], [0, 0, 1, 0], [0, 0, 0, 1]] [17, 10, 8, 1]
     [[1, 0, 0, 0], [0, 1, 0, 0], [0, 0, 1, 0], [0, 0, 0, 1]]"
  by (simp add: eval_mat)

lemma is_svd_7:
  "is_svd [[464, 0, 0, 0], [0, 64, 0, 0], [0, 0, 64, 0], [0, 0, 0, 1]]
     [[1, 0, 0, 0], [0, 1, 0, 0], [0, 0, 1, 0], [0, 0, 0, 1]] [464, 64, 64, 1]
     [[1, 0, 0, 0], [0, 1, 0, 0], [0, 0, 1, 0], [0, 0, 0, 1]]"
  by (simp add: eval_mat)

lemma svd_table_8:
  "svd_table [[1, - 1, 1, - 1], [2, - 2, 2, - 2], [2, - 2, 2, - 2]] =
     ([6, 0, 0],
      [[1 / 2, - 1 / 2, 1 / 2, - 1 / 2], [1 / 2, 1 / 2, 1 / 2, 1 / 2],
       [1 / 2, 1 / 2, - 1 / 2, - 1 / 2]])"
  by (simp add: svd_table_def)

lemma svd_table_9:
  "svd_table [[9, - 9, 9, - 9], [- 9, 9, - 9, 9], [9, - 9, 9, - 9], [- 9, 9, - 9, 9]] =
     ([36, 0, 0, 0],
      [[1 / 2, - 1 / 2, 1 / 2, - 1 / 2], [1 / 2, 1 / 2, 1 / 2, 1 / 2],
       [1 / 2, 1 / 2, - 1 / 2, - 1 / 2], [1 / 2, - 1 / 2, - 1 / 2, 1 / 2]])"
  by (simp add: svd_table_def)

lemma svd_table_10: "svd_table [[3], [4]] = ([5], [[1]])"
  by (simp add: svd_table_def)

lemma is_svd_8:
  "is_svd [[1, - 1, 1, - 1], [2, - 2, 2, - 2], [2, - 2, 2, - 2]]
     [[1 / 3, 2 / 3, 2 / 3], [2 / 3, 1 / 3, - 2 / 3], [2 / 3, - 2 / 3, 1 / 3]] [6, 0, 0]
     [[1 / 2, - 1 / 2, 1 / 2, - 1 / 2], [1 / 2, 1 / 2, 1 / 2, 1 / 2],
      [1 / 2, 1 / 2, - 1 / 2, - 1 / 2]]"
  by (simp add: eval_mat)

lemma is_svd_9:
  "is_svd [[9, - 9, 9, - 9], [- 9, 9, - 9, 9], [9, - 9, 9, - 9], [- 9, 9, - 9, 9]]
     [[1 / 2, 1 / 2, 1 / 2, 1 / 2], [- 1 / 2, 1 / 2, 1 / 2, - 1 / 2],
      [1 / 2, 1 / 2, - 1 / 2, - 1 / 2], [- 1 / 2, 1 / 2, - 1 / 2, 1 / 2]] [36, 0, 0, 0]
     [[1 / 2, - 1 / 2, 1 / 2, - 1 / 2], [1 / 2, 1 / 2, 1 / 2, 1 / 2],
      [1 / 2, 1 / 2, - 1 / 2, - 1 / 2], [1 / 2, - 1 / 2, - 1 / 2, 1 / 2]]"
  by (simp add: eval_mat)

lemma is_svd_10: "is_svd [[3], [4]] [[3 / 5], [4 / 5]] [5] [[1]]"
  by (simp add: eval_mat)

lemma svd_table_11:
  "svd_table [[1 / 10 ^ 7, 0, 0], [0, 13 / (2 * 10 ^ 8), 0], [0, 0, 6 / 10 ^ 8]] =
     ([1 / 10 ^ 7, 13 / (2 * 10 ^ 8), 6 / 10 ^ 8], [[1, 0, 0], [0, 1, 0], [0, 0, 1]])"
  by (simp add: svd_table_def)

lemma is_svd_11:
  "is_svd [[1 / 10 ^ 7, 0, 0], [0, 13 / (2 * 10 ^ 8), 0], [0, 0, 6 / 10 ^ 8]]
     [[1, 0, 0], [0, 1, 0], [0, 0, 1]]
     [1 / 10 ^ 7, 13 / (2 * 10 ^ 8), 6 / 10 ^ 8] [[1, 0, 0], [0, 1, 0], [0, 0, 1]]"
  by (simp add: eval_mat)

lemma svd_table_12:
  "svd_table [[10 ^ 200, 0], [0, 10 ^ 200]] = ([10 ^ 200, 10 ^ 200], [[1, 0], [0, 1]])"
  by (simp add: svd_table_def)

lemma is_svd_12:
  "is_svd [[10 ^ 200, 0], [0, 10 ^ 200]] [[1, 0], [0, 1]] [10 ^ 200, 10 ^ 200] [[1, 0], [0, 1]]"
  by (simp add: eval_mat)

lemma svd_table_genuine:
  "\<forall>a \<in> {[[3, 0, 0], [0, 5, 0], [0, 0, 4]], [[3, 0], [4, 0], [12, 0], [0, 12]],
           [[13, 0], [0, 12]], [[5, 0], [0, 3]], [[3, 4]],
           [[17, 0, 0, 0], [0, 10, 0, 0], [0, 0, 8, 0], [0, 0, 0, 1]],
           [[464, 0, 0, 0], [0, 64, 0, 0], [0, 0, 64, 0], [0, 0, 0, 1]],
           [[1, - 1, 1, - 1], [2, - 2, 2, - 2], [2, - 2, 2, - 2]],
           [[9, - 9, 9, - 9], [- 9, 9, - 9, 9], [9, - 9, 9, - 9], [- 9, 9, - 9, 9]],
           [[3], [4]],
           [[1 / 10 ^ 7, 0, 0], [0, 13 / (2 * 10 ^ 8), 0], [0, 0, 6 / 10 ^ 8]],
           [[10 ^ 200, 0], [0, 10 ^ 200]]}.
     \<exists>u. is_svd a u (fst (svd_table a)) (snd (svd_table a))"
  using is_svd_1 is_svd_2 is_svd_3 is_svd_4 is_svd_5 is_svd_6 is_svd_7 is_svd_8 is_svd_9 is_svd_10
    is_svd_11 is_svd_12
  by (simp only: ball_simps insert_iff empty_iff svd_table_1 svd_table_2 svd_table_3 svd_table_4
      svd_table_5 svd_table_6 svd_table_7 svd_table_8 svd_table_9 svd_table_10 svd_table_11 svd_table_12
      fst_conv snd_conv) blast

subsection \<open>A run on which the sketch misses the error bound\<close>

lemma sqrt_225: "sqrt 225 = 15" using real_sqrt_abs[of 15] by simp

lemma diagflat_4:
  "diagflat [a, b, c, d] = [[a, 0, 0, 0], [0, b, 0, 0], [0, 0, c, 0], [0, 0, 0, d]]"
  by (simp add: diagflat_def upt_4)

lemma dot_4_identity:
  "dot [[a, 0, 0, 0], [0, b, 0, 0], [0, 0, c, 0], [0, 0, 0, d]]
       [[1, 0, 0, 0], [0, 1, 0, 0], [0, 0, 1, 0], [0, 0, 0, 1]] =
   [[a, 0, 0, 0], [0, b, 0, 0], [0, 0, c, 0], [0, 0, 0, d]]"
  by (simp add: dot_def col_def inner_def ncols_def upt_4)

lemma shrink_6:
  "shrink svd_table 2 [[17, 0, 0, 0], [0, 10, 0, 0], [0, 0, 8, 0], [0, 0, 0, 1]] =
     Inr ([[15, 0, 0, 0], [0, 6, 0, 0], [0, 0, 0, 0], [0, 0, 0, 0]], [2, 3])"
  by (simp add: shrink_def svd_table_6 py_index_def Let_def diagflat_4 dot_4_identity upt_4 float_limit_def
      py_round_7_eq_0_iff sqrt_225 sqrt_36)

lemma lossy_step_1:
  "add_sample svd_table (fresh 2 (Some 2)) [17, 0, 0, 0] =
     (Inr (), \<lparr>ell = 2, k = 2, M = Some 4, N = 1,
               mat_b = Some [[17, 0, 0, 0], [0, 0, 0, 0], [0, 0, 0, 0], [0, 0, 0, 0]],
               zero_rows = Some [1, 2, 3]\<rparr>)"
  by (simp add: eval_add)

lemma lossy_step_2:
  "add_sample svd_table
     \<lparr>ell = 2, k = 2, M = Some 4, N = 1,
      mat_b = Some [[17, 0, 0, 0], [0, 0, 0, 0], [0, 0, 0, 0], [0, 0, 0, 0]],
      zero_rows = Some [1, 2, 3]\<rparr> [0, 10, 0, 0] =
     (Inr (), \<lparr>ell = 2, k = 2, M = Some 4, N = 2,
               mat_b = Some [[17, 0, 0, 0], [0, 10, 0, 0], [0, 0, 0, 0], [0, 0, 0, 0]],
               zero_rows = Some [2, 3]\<rparr>)"
  by (simp add: eval_add)

lemma lossy_step_3:
  "add_sample svd_table
     \<lparr>ell = 2, k = 2, M = Some 4, N = 2,
      mat_b = Some [[17, 0, 0, 0], [0, 10, 0, 0], [0, 0, 0, 0], [0, 0, 0, 0]],
      zero_rows = Some [2, 3]\<rparr> [0, 0, 8, 0] =
     (Inr (), \<lparr>ell = 2, k = 2, M = Some 4, N = 3,
               mat_b = Some [[17, 0, 0, 0], [0, 10, 0, 0], [0, 0, 8, 0], [0, 0, 0, 0]],
               zero_rows = Some [3]\<rparr>)"
  by (simp add: eval_add)

lemma lossy_step_4:
  "add_sample svd_table
     \<lparr>ell = 2, k = 2, M = Some 4, N = 3,
      mat_b = Some [[17, 0, 0, 0], [0, 10, 0, 0], [0, 0, 8, 0], [0, 0, 0, 0]],
      zero_rows = Some [3]\<rparr> [0, 0, 0, 1] =
     (Inr (), \<lparr>ell = 2, k = 2, M = Some 4, N = 4,
               mat_b = Some [[15, 0, 0, 0], [0, 6, 0, 0], [0, 0, 0, 0], [0, 0, 0, 0]],
               zero_rows = Some [2, 3]\<rparr>)"
  by (simp add: eval_add shrink_6)

lemma lossy_step_5:
  "add_sample svd_table
     \<lparr>ell = 2, k = 2, M = Some 4, N = 4,
      mat_b = Some [[15, 0, 0, 0], [0, 6, 0, 0], [0, 0, 0, 0], [0, 0, 0, 0]],
      zero_rows = Some [2, 3]\<rparr> [20, 0, 0, 0] =
     (Inr (), \<lparr>ell = 2, k = 2, M = Some 4, N = 5,
               mat_b = Some [[15, 0, 0, 0], [0, 6, 0, 0], [20, 0, 0, 0], [0, 0, 0, 0]],
               zero_rows = Some [3]\<rparr>)"
  by (simp add: eval_add)

lemma lossy_run:
  "add_samples svd_table (fresh 2 (Some 2))
     [[17, 0, 0, 0], [0, 10, 0, 0], [0, 0, 8, 0], [0, 0, 0, 1], [20, 0, 0, 0]] =
     (Inr (), \<lparr>ell = 2, k = 2, M = Some 4, N = 5,
               mat_b = Some [[15, 0, 0, 0], [0, 6, 0, 0], [20, 0, 0, 0], [0, 0, 0, 0]],
               zero_rows = Some [3]\<rparr>)"
  by (simp only: add_samples.simps lossy_step_1 lossy_step_2 lossy_step_3 lossy_step_4
      lossy_step_5 prod.case sum.case)

lemma lossy_result:
  "get_result \<lparr>ell = 2, k = 2, M = Some 4, N = 5,
      mat_b = Some [[15, 0, 0, 0], [0, 6, 0, 0], [20, 0, 0, 0], [0, 0, 0, 0]],
      zero_rows = Some [3]\<rparr> False =
     (Inr [[15, 0, 0, 0], [0, 6, 0, 0]],
      \<lparr>ell = 2, k = 2, M = Some 4, N = 5,
       mat_b = Some [[15, 0, 0, 0], [0, 6, 0, 0], [20, 0, 0, 0], [0, 0, 0, 0]],
       zero_rows = Some [3]\<rparr>)"
  by (simp add: get_result_def py_slice_to_def)

lemma lossy_gram_a:
  "dot (transpose_mat [[17, 0, 0, 0], [0, 10, 0, 0], [0, 0, 8, 0], [0, 0, 0, 1], [20, 0, 0, 0]])
       [[17, 0, 0, 0], [0, 10, 0, 0], [0, 0, 8, 0], [0, 0, 0, 1], [20, 0, 0, 0]] =
   [[689, 0, 0, 0], [0, 100, 0, 0], [0, 0, 64, 0], [0, 0, 0, 1]]"
  by (simp add: dot_def transpose_mat_def col_def inner_def ncols_def upt_4)

lemma lossy_gram_b:
  "dot (transpose_mat [[15, 0, 0, 0], [0, 6, 0, 0]]) [[15, 0, 0, 0], [0, 6, 0, 0]] =
   [[225, 0, 0, 0], [0, 36, 0, 0], [0, 0, 0, 0], [0, 0, 0, 0]]"
  by (simp add: dot_def transpose_mat_def col_def inner_def ncols_def upt_4)

lemma lossy_error:
  "calculateError svd_table
     [[17, 0, 0, 0], [0, 10, 0, 0], [0, 0, 8, 0], [0, 0, 0, 1], [20, 0, 0, 0]]
     [[15, 0, 0, 0], [0, 6, 0, 0]] = Inr 464"
  by (simp add: calculateError_def Let_def lossy_gram_a lossy_gram_b mat_sub_def svd_table_7)

lemma lossy_norm:
  "squaredFrobeniusNorm
     [[17, 0, 0, 0], [0, 10, 0, 0], [0, 0, 8, 0], [0, 0, 0, 1], [20, 0, 0, 0]] = 854"
  by (simp add: squaredFrobeniusNorm_def)

lemma shrink_8:
  "shrink svd_table 2 [[1, - 1, 1, - 1], [2, - 2, 2, - 2], [2, - 2, 2, - 2]] =
     Inr ([[3, - 3, 3, - 3], [0, 0, 0, 0], [0, 0, 0, 0]], [0, 1, 2])"
  by (simp add: shrink_def svd_table_8 py_index_def Let_def diagflat_3 dot_def col_def inner_def float_limit_def
      ncols_def upt_3 upt_4 py_round_7_eq_0_iff sqrt_36)

lemma cancel_step_1:
  "add_sample svd_table (fresh 2 (Some 1)) [1, - 1, 1, - 1] =
     (Inr (), \<lparr>ell = 2, k = 1, M = Some 4, N = 1,
               mat_b = Some [[1, - 1, 1, - 1], [0, 0, 0, 0], [0, 0, 0, 0]],
               zero_rows = Some [1, 2]\<rparr>)"
  by (simp add: eval_add)

lemma cancel_step_2:
  "add_sample svd_table
     \<lparr>ell = 2, k = 1, M = Some 4, N = 1,
      mat_b = Some [[1, - 1, 1, - 1], [0, 0, 0, 0], [0, 0, 0, 0]],
      zero_rows = Some [1, 2]\<rparr> [2, - 2, 2, - 2] =
     (Inr (), \<lparr>ell = 2, k = 1, M = Some 4, N = 2,
               mat_b = Some [[1, - 1, 1, - 1], [2, - 2, 2, - 2], [0, 0, 0, 0]],
               zero_rows = Some [2]\<rparr>)"
  by (simp add: eval_add)

lemma cancel_step_3:
  "add_sample svd_table
     \<lparr>ell = 2, k = 1, M = Some 4, N = 2,
      mat_b = Some [[1, - 1, 1, - 1], [2, - 2, 2, - 2], [0, 0, 0, 0]],
      zero_rows = Some [2]\<rparr> [2, - 2, 2, - 2] =
     (Inr (), \<lparr>ell = 2, k = 1, M = Some 4, N = 3,
               mat_b = Some [[3, - 3, 3, - 3], [0, 0, 0, 0], [0, 0, 0, 0]],
               zero_rows = Some [0, 1, 2]\<rparr>)"
  by (simp add: eval_add shrink_8)

lemma cancel_step_4:
  "add_sample svd_table
     \<lparr>ell = 2, k = 1, M = Some 4, N = 3,
      mat_b = Some [[3, - 3, 3, - 3], [0, 0, 0, 0], [0, 0, 0, 0]],
      zero_rows = Some [0, 1, 2]\<rparr> [1, - 1, 1, - 1] =
     (Inr (), \<lparr>ell = 2, k = 1, M = Some 4, N = 4,
               mat_b = Some [[1, - 1, 1, - 1], [0, 0, 0, 0], [0, 0, 0, 0]],
               zero_rows = Some [1, 2]\<rparr>)"
  by (simp add: eval_add)

lemma cancel_run:
  "add_samples svd_table (fresh 2 (Some 1))
     [[1, - 1, 1, - 1], [2, - 2, 2, - 2], [2, - 2, 2, - 2], [1, - 1, 1, - 1]] =
     (Inr (), \<lparr>ell = 2, k = 1, M = Some 4, N = 4,
               mat_b = Some [[1, - 1, 1, - 1], [0, 0, 0, 0], [0, 0, 0, 0]],
               zero_rows = Some [1, 2]\<rparr>)"
  by (simp only: add_samples.simps cancel_step_1 cancel_step_2 cancel_step_3 cancel_step_4
      prod.case sum.case)

lemma cancel_result:
  "fst (get_result \<lparr>ell = 2, k = 1, M = Some 4, N = 4,
      mat_b = Some [[1, - 1, 1, - 1], [0, 0, 0, 0], [0, 0, 0, 0]],
      zero_rows = Some [1, 2]\<rparr> False) = Inr [[1, - 1, 1, - 1], [0, 0, 0, 0]]"
  by (simp add: get_result_def py_slice_to_def)

lemma cancel_gram_a:
  "dot (transpose_mat [[1, - 1, 1, - 1], [2, - 2, 2, - 2], [2, - 2, 2, - 2], [1, - 1, 1, - 1]])
       [[1, - 1, 1, - 1], [2, - 2, 2, - 2], [2, - 2, 2, - 2], [1, - 1, 1, - 1]] =
   [[10, - 10, 10, - 10], [- 10, 10, - 10, 10], [10, - 10, 10, - 10], [- 10, 10, - 10, 10]]"
  by (simp add: dot_def transpose_mat_def col_def inner_def ncols_def upt_4)

lemma cancel_gram_b:
  "dot (transpose_mat [[1, - 1, 1, - 1], [0, 0, 0, 0]]) [[1, - 1, 1, - 1], [0, 0, 0, 0]] =
   [[1, - 1, 1, - 1], [- 1, 1, - 1, 1], [1, - 1, 1, - 1], [- 1, 1, - 1, 1]]"
  by (simp add: dot_def transpose_mat_def col_def inner_def ncols_def upt_4)

lemma cancel_error:
  "calculateError svd_table
     [[1, - 1, 1, - 1], [2, - 2, 2, - 2], [2, - 2, 2, - 2], [1, - 1, 1, - 1]]
     [[1, - 1, 1, - 1], [0, 0, 0, 0]] = Inr 36"
  by (simp add: calculateError_def Let_def cancel_gram_a cancel_gram_b mat_sub_def svd_table_9)

lemma cancel_norm:
  "squaredFrobeniusNorm
     [[1, - 1, 1, - 1], [2, - 2, 2, - 2], [2, - 2, 2, - 2], [1, - 1, 1, - 1]] = 40"
  by (simp add: squaredFrobeniusNorm_def)

text \<open>
Claim C3 at two concrete inputs. With \<open>ell = 2\<close>, \<open>k = 2\<close> the fifth row is written into a
free row beyond the first \<open>ell\<close> and cut off by \<open>get_result\<close>: the reconstruction error
is 464, above the bound \<open>squaredFrobeniusNorm A / ell = 427\<close>. With \<open>ell = 2\<close>, \<open>k = 1\<close> and
rows that are multiples of \<open>[1, -1, 1, -1]\<close> the shrunk row \<open>[3, -3, 3, -3]\<close> sums to zero,
is taken for a free row and overwritten: the error is 36, above the bound 20.
\<close>

theorem error_bound_violated:
  "add_samples svd_table (fresh 2 (Some 2))
     [[17, 0, 0, 0], [0, 10, 0, 0], [0, 0, 8, 0], [0, 0, 0, 1], [20, 0, 0, 0]] =
     (Inr (), \<lparr>ell = 2, k = 2, M = Some 4, N = 5,
               mat_b = Some [[15, 0, 0, 0], [0, 6, 0, 0], [20, 0, 0, 0], [0, 0, 0, 0]],
               zero_rows = Some [3]\<rparr>) \<and>
   fst (get_result \<lparr>ell = 2, k = 2, M = Some 4, N = 5,
          mat_b = Some [[15, 0, 0, 0], [0, 6, 0, 0], [20, 0, 0, 0], [0, 0, 0, 0]],
          zero_rows = Some [3]\<rparr> False) = Inr [[15, 0, 0, 0], [0, 6, 0, 0]] \<and>
   calculateError svd_table
     [[17, 0, 0, 0], [0, 10, 0, 0], [0, 0, 8, 0], [0, 0, 0, 1], [20, 0, 0, 0]]
     [[15, 0, 0, 0], [0, 6, 0, 0]] = Inr 464 \<and>
   squaredFrobeniusNorm
     [[17, 0, 0, 0], [0, 10, 0, 0], [0, 0, 8, 0], [0, 0, 0, 1], [20, 0, 0, 0]] / 2 = 427 \<and>
   add_samples svd_table (fresh 2 (Some 1))
     [[1, - 1, 1, - 1], [2, - 2, 2, - 2], [2, - 2, 2, - 2], [1, - 1, 1, - 1]] =
     (Inr (), \<lparr>ell = 2, k = 1, M = Some 4, N = 4,
               mat_b = Some [[1, - 1, 1, - 1], [0, 0, 0, 0], [0, 0, 0, 0]],
               zero_rows = Some [1, 2]\<rparr>) \<and>
   fst (get_result \<lparr>ell = 2, k = 1, M = Some 4, N = 4,
          mat_b = Some [[1, - 1, 1, - 1], [0, 0, 0, 0], [0, 0, 0, 0]],
          zero_rows = Some [1, 2]\<rparr> False) = Inr [[1, - 1, 1, - 1], [0, 0, 0, 0]] \<and>
   calculateError svd_table
     [[1, - 1, 1, - 1], [2, - 2, 2, - 2], [2, - 2, 2, - 2], [1, - 1, 1, - 1]]
     [[1, - 1, 1, - 1], [0, 0, 0, 0]] = Inr 36 \<and>
   squaredFrobeniusNorm
     [[1, - 1, 1, - 1], [2, - 2, 2, - 2], [2, - 2, 2, - 2], [1, - 1, 1, - 1]] / 2 = 20"
  using lossy_run lossy_result lossy_error lossy_norm
    cancel_run cancel_result cancel_error cancel_norm
  by simp

end
